theory Spec2Isabelle
  imports Main "HOL-Library.Sublist"
begin

section \<open>The search worker pool of SearchAgent\<close>

text \<open>
  A shallow embedding of
  \<^verbatim>\<open>search_agent/mcp_servers/search_worker_pool.py\<close> and
  \<^verbatim>\<open>search_agent/coordination/_worker_wrapper.py\<close>.

  The module's globals (\<^verbatim>\<open>MAX_POOL_SIZE\<close>, \<^verbatim>\<open>worker_pool\<close>,
  \<^verbatim>\<open>pool_config\<close>, \<^verbatim>\<open>_pool_initialized\<close>) are one record that every
  operation takes and returns. Everything the module does not define itself (the
  executors, the clocks, Python's \<^verbatim>\<open>str\<close>, tracebacks, cancellation) is read from one
  record of external behaviour, so that the functions below are deterministic and
  executable. Exceptions are values: a coroutine that may raise returns a sum whose left
  side is the exception.
\<close>

subsection \<open>Python values\<close>

text \<open>
  The values found in an executor's response: \<^verbatim>\<open>None\<close>, booleans, integers, strings,
  lists, dicts with string keys (in insertion order), and objects of a named class with
  named attributes (a LangChain message is one). Such an object is always true and has no
  item access.
\<close>

datatype pyval =
    PNone
  | PBool bool
  | PInt int
  | PStr string
  | PList "pyval list"
  | PDict "(string \<times> pyval) list"
  | PObj string "(string \<times> pyval) list"

type_synonym response = "(string \<times> pyval) list"

text \<open>
  An exception object, as far as the module looks at it: \<^verbatim>\<open>type(exc).__name__\<close>,
  \<^verbatim>\<open>str(exc)\<close>, and \<^verbatim>\<open>isinstance(exc, Exception)\<close>. The last is false of
  \<^verbatim>\<open>asyncio.CancelledError\<close>, which derives from \<^verbatim>\<open>BaseException\<close> only:
  \<^verbatim>\<open>except Exception\<close> does not catch it, and \<^verbatim>\<open>gather\<close> hands it back like any other
  outcome of a task. \<^verbatim>\<open>KeyboardInterrupt\<close> and \<^verbatim>\<open>SystemExit\<close>, which stop the event
  loop itself, are not exceptions of this model.
\<close>

record py_exception =
  exc_type :: string
  exc_str :: string
  exc_is_exception :: bool

definition ValueError :: "string \<Rightarrow> py_exception" where
  "ValueError msg = \<lparr>exc_type = ''ValueError'', exc_str = msg, exc_is_exception = True\<rparr>"

definition RuntimeError :: "string \<Rightarrow> py_exception" where
  "RuntimeError msg = \<lparr>exc_type = ''RuntimeError'', exc_str = msg, exc_is_exception = True\<rparr>"

definition TypeError :: "string \<Rightarrow> py_exception" where
  "TypeError msg = \<lparr>exc_type = ''TypeError'', exc_str = msg, exc_is_exception = True\<rparr>"

definition KeyError :: "string \<Rightarrow> py_exception" where
  "KeyError msg = \<lparr>exc_type = ''KeyError'', exc_str = msg, exc_is_exception = True\<rparr>"

definition IndexError :: "string \<Rightarrow> py_exception" where
  "IndexError msg = \<lparr>exc_type = ''IndexError'', exc_str = msg, exc_is_exception = True\<rparr>"

definition CancelledError :: py_exception where
  "CancelledError = \<lparr>exc_type = ''CancelledError'', exc_str = [], exc_is_exception = False\<rparr>"

text \<open>Truth value of a Python value, as \<^verbatim>\<open>if messages:\<close> tests it.\<close>

fun truthy :: "pyval \<Rightarrow> bool" where
  "truthy PNone = False"
| "truthy (PBool b) = b"
| "truthy (PInt i) = (i \<noteq> 0)"
| "truthy (PStr s) = (s \<noteq> [])"
| "truthy (PList xs) = (xs \<noteq> [])"
| "truthy (PDict kvs) = (kvs \<noteq> [])"
| "truthy (PObj cls attrs) = True"

text \<open>
  \<^verbatim>\<open>v[-1]\<close>: the last element of a list, the last character of a string; a dict with
  string keys has no key \<open>-1\<close> (and \<^verbatim>\<open>str\<close> of that \<^verbatim>\<open>KeyError\<close> is \<open>-1\<close>); the other
  values are not subscriptable, and the \<^verbatim>\<open>TypeError\<close> names their type.
\<close>

definition not_subscriptable :: "string \<Rightarrow> py_exception" where
  "not_subscriptable cls = TypeError ([CHR 0x27] @ cls @ [CHR 0x27] @ '' object is not subscriptable'')"

fun subscript_last :: "pyval \<Rightarrow> py_exception + pyval" where
  "subscript_last (PList xs) =
     (if xs = [] then Inl (IndexError ''list index out of range'') else Inr (last xs))"
| "subscript_last (PStr s) =
     (if s = [] then Inl (IndexError ''string index out of range'') else Inr (PStr [last s]))"
| "subscript_last (PDict kvs) = Inl (KeyError ''-1'')"
| "subscript_last PNone = Inl (not_subscriptable ''NoneType'')"
| "subscript_last (PBool b) = Inl (not_subscriptable ''bool'')"
| "subscript_last (PInt i) = Inl (not_subscriptable ''int'')"
| "subscript_last (PObj cls attrs) = Inl (not_subscriptable cls)"

text \<open>
  \<^verbatim>\<open>hasattr(v, name)\<close> followed by \<^verbatim>\<open>v.name\<close>, for a name that no built-in type has
  (such as \<^verbatim>\<open>content\<close>): only an object carries it.
\<close>

fun getattr :: "pyval \<Rightarrow> string \<Rightarrow> pyval option" where
  "getattr (PObj cls attrs) name = map_of attrs name"
| "getattr v name = None"

text \<open>\<^verbatim>\<open>isinstance(v, dict) and k in v\<close> followed by \<^verbatim>\<open>v[k]\<close>.\<close>

fun dict_get :: "pyval \<Rightarrow> string \<Rightarrow> pyval option" where
  "dict_get (PDict kvs) k = map_of kvs k"
| "dict_get v k = None"

text \<open>The \<^verbatim>\<open>content\<close> the module reads off a message: the attribute of an object first,
  the key of a dict second.\<close>

definition content_of :: "pyval \<Rightarrow> pyval option" where
  "content_of v = (case getattr v ''content'' of Some c \<Rightarrow> Some c | None \<Rightarrow> dict_get v ''content'')"

subsection \<open>Decimal rendering\<close>

definition digit_chars :: string where
  "digit_chars = ''0123456789''"

function show_nat :: "nat \<Rightarrow> string" where
  "show_nat n = (if n < 10 then [digit_chars ! n] else show_nat (n div 10) @ [digit_chars ! (n mod 10)])"
  by pat_completeness auto
termination
  by (relation "measure (\<lambda>n. n)") auto

declare show_nat.simps [simp del]

definition show_int :: "int \<Rightarrow> string" where
  "show_int i = (if i < 0 then CHR ''-'' # show_nat (nat (- i)) else show_nat (nat i))"

subsection \<open>External behaviour\<close>

type_synonym datetime = nat
  \<comment> \<open>a reading of \<^verbatim>\<open>datetime.now()\<close>\<close>
type_synonym seconds = int
  \<comment> \<open>\<^verbatim>\<open>round(time.perf_counter() - start_time, 2)\<close>, in hundredths of a second\<close>

text \<open>
  \<^item> \<open>py_str\<close>, \<open>fmt_secs\<close>, \<open>format_exc\<close>: Python's \<^verbatim>\<open>str\<close>, the rendering of the rounded
    elapsed time inside an f-string, and \<^verbatim>\<open>traceback.format_exc()\<close> for the exception
    being handled.
  \<^item> \<open>agent_run a q k\<close>: what the \<open>k\<close>-th call (from 0) of \<^verbatim>\<open>run(q)\<close> on executor \<open>a\<close>
    does during this batch: the elapsed time read when it ends, and the exception it
    raises (of any class) or the dict it returns.
  \<^item> \<open>start_error\<close>: the exception, if any, that awaiting the executors'
    \<^verbatim>\<open>start()\<close> raises during pool initialization.
  \<^item> \<open>datetime_now\<close>: successive readings of the wall clock.
  \<^item> \<open>gather_interrupt\<close>: an exception delivered to the batch while it awaits
    \<^verbatim>\<open>asyncio.gather\<close> (a cancellation), if any.
\<close>

record env =
  py_str :: "pyval \<Rightarrow> string"
  fmt_secs :: "seconds \<Rightarrow> string"
  format_exc :: "py_exception \<Rightarrow> string"
  agent_run :: "nat \<Rightarrow> string \<Rightarrow> nat \<Rightarrow> seconds \<times> (py_exception + response)"
  start_error :: "py_exception option"
  datetime_now :: "nat \<Rightarrow> datetime"
  gather_interrupt :: "py_exception option"

subsection \<open>The worker wrapper\<close>

text \<open>\<^verbatim>\<open>WorkerAgentWrapper\<close>: \<open>agent\<close> names the wrapped executor.\<close>

record worker =
  agent :: nat
  agent_id :: string
  created_at :: datetime
  last_used :: datetime
  is_busy :: bool
  task_count :: nat

definition WorkerAgentWrapper :: "env \<Rightarrow> nat \<Rightarrow> string \<Rightarrow> nat \<Rightarrow> worker" where
  "WorkerAgentWrapper e a ident t =
     \<lparr>agent = a, agent_id = ident, created_at = datetime_now e t,
      last_used = datetime_now e (Suc t), is_busy = False, task_count = 0\<rparr>"

text \<open>
  \<^verbatim>\<open>WorkerAgentWrapper.execute\<close>: marks the wrapper busy, counts the task, stamps
  \<^verbatim>\<open>last_used\<close>, awaits the executor, and clears the busy flag in its \<^verbatim>\<open>finally\<close>. The
  third argument is the number of the executor call, the fourth the clock reading.
\<close>

definition execute :: "env \<Rightarrow> worker \<Rightarrow> string \<Rightarrow> nat \<Rightarrow> nat \<Rightarrow> (py_exception + response) \<times> worker" where
  "execute e w subtask k t =
     (let w1 = w\<lparr>is_busy := True, task_count := task_count w + 1, last_used := datetime_now e t\<rparr>;
          result = snd (agent_run e (agent w1) subtask k)
      in (result, w1\<lparr>is_busy := False\<rparr>))"

subsection \<open>Module state and pool initialization\<close>

record config =
  cfg_max_pool_size :: "int option"
  cfg_agent_config :: "(string \<times> pyval) list option"

record pool_state =
  MAX_POOL_SIZE :: int
  worker_pool :: "worker list"
  pool_config :: config
  pool_initialized :: bool

text \<open>\<^verbatim>\<open>config.get("max_pool_size", MAX_POOL_SIZE)\<close>\<close>

definition get_max_pool_size :: "pool_state \<Rightarrow> config \<Rightarrow> int" where
  "get_max_pool_size s c = (case cfg_max_pool_size c of None \<Rightarrow> MAX_POOL_SIZE s | Some m \<Rightarrow> m)"

text \<open>
  \<^verbatim>\<open>initialize_pool(config, model)\<close>. Returns the exception raised (if any), the new
  state, and the executors whose \<^verbatim>\<open>start()\<close> it awaited.
\<close>

definition initialize_pool :: "env \<Rightarrow> pool_state \<Rightarrow> config option \<Rightarrow> py_exception option \<times> pool_state \<times> nat list" where
  "initialize_pool e s config_arg =
     (if pool_initialized s then (None, s, [])
      else
        let config = (case config_arg of
                        None \<Rightarrow> \<lparr>cfg_max_pool_size = Some (MAX_POOL_SIZE s), cfg_agent_config = Some []\<rparr>
                      | Some c \<Rightarrow> c);
            s1 = s\<lparr>pool_config := config\<rparr>;
            max_pool_size = get_max_pool_size s1 config;
            agents = [0 ..< nat max_pool_size]
        in case (if agents = [] then None else start_error e) of
             Some exc \<Rightarrow> (Some exc, s1, agents)
           | None \<Rightarrow>
               (None,
                s1\<lparr>worker_pool := worker_pool s1 @
                        map (\<lambda>i. WorkerAgentWrapper e i (''search_agent_'' @ show_nat i) (2 * i)) agents,
                    pool_initialized := True\<rparr>,
                agents))"

subsection \<open>Extracting the result text\<close>

text \<open>\<^verbatim>\<open>_extract_output_from_dict(result)\<close>\<close>

definition extract_output_from_dict :: "env \<Rightarrow> response \<Rightarrow> py_exception + pyval" where
  "extract_output_from_dict e result =
     (case map_of result ''output'' of
        Some out \<Rightarrow> Inr (PStr (py_str e out))
      | None \<Rightarrow>
          let messages = (case map_of result ''messages'' of None \<Rightarrow> PList [] | Some m \<Rightarrow> m)
          in if truthy messages then
               (case subscript_last messages of
                  Inl exc \<Rightarrow> Inl exc
                | Inr lst \<Rightarrow>
                    (case getattr lst ''content'' of
                       Some c \<Rightarrow> Inr c
                     | None \<Rightarrow>
                         (case dict_get lst ''content'' of
                            Some c \<Rightarrow> Inr c
                          | None \<Rightarrow> Inr (PStr (py_str e (PDict result))))))
             else Inr (PStr (py_str e (PDict result))))"

subsection \<open>One task on one worker: the retry loop\<close>

text \<open>
  The objects that \<^verbatim>\<open>gather\<close> hands back and the batch lists under \<^verbatim>\<open>results\<close>: the
  dict a successful task returns; \<^verbatim>\<open>None\<close>, which a coroutine returns when its body
  ends without a \<^verbatim>\<open>return\<close>; and the exception object of a task that raised.
\<close>

record task_result =
  subtask_index :: nat
  subtask :: string
  result :: pyval
  res_agent_id :: string
  time_taken_seconds :: seconds

datatype task_value = TaskDict task_result | TaskNone | TaskException py_exception

text \<open>What a task does to the outside world: a call of the executor's \<^verbatim>\<open>run\<close> with the
  subtask, or \<^verbatim>\<open>asyncio.sleep\<close> for a number of seconds.\<close>

datatype event = AgentRun nat string | Sleep nat

definition max_retrys :: nat where
  "max_retrys = 5"

definition error_message :: "env \<Rightarrow> worker \<Rightarrow> string \<Rightarrow> nat \<Rightarrow> seconds \<Rightarrow> py_exception \<Rightarrow> string" where
  "error_message e w st idx elapsed exc =
     ''Agent '' @ agent_id w @ '' failed after '' @ show_nat max_retrys @ '' attempts (took ''
       @ fmt_secs e elapsed @ ''s)'' @ [CHR 0x0A]
     @ ''Subtask ['' @ show_nat idx @ '']: '' @ st @ [CHR 0x0A]
     @ ''Error type: '' @ exc_type exc @ [CHR 0x0A]
     @ ''Error message: '' @ exc_str exc @ [CHR 0x0A]
     @ ''Full traceback:'' @ [CHR 0x0A] @ format_exc e exc"

text \<open>The \<^verbatim>\<open>try\<close> block of one iteration: the executor call, then the extraction.\<close>

definition attempt_body :: "env \<Rightarrow> worker \<Rightarrow> string \<Rightarrow> nat \<Rightarrow> nat \<Rightarrow> seconds \<times> (py_exception + task_result)" where
  "attempt_body e w st idx attempt =
     (case agent_run e (agent w) st attempt of
        (elapsed, out) \<Rightarrow>
          (elapsed,
           case out of
             Inl exc \<Rightarrow> Inl exc
           | Inr response \<Rightarrow>
               (case extract_output_from_dict e response of
                  Inl exc \<Rightarrow> Inl exc
                | Inr final_text \<Rightarrow>
                    Inr \<lparr>subtask_index = idx, subtask = st, result = final_text,
                         res_agent_id = agent_id w, time_taken_seconds = elapsed\<rparr>)))"

text \<open>
  \<^verbatim>\<open>for attempt in range(max_retrys)\<close>, from a given attempt on. Returns what the
  coroutine returns or raises, and what it did. \<^verbatim>\<open>except Exception\<close> handles the
  exceptions that are instances of \<^verbatim>\<open>Exception\<close>; any other leaves the coroutine as
  it is.
\<close>

function attempts_from :: "env \<Rightarrow> worker \<Rightarrow> string \<Rightarrow> nat \<Rightarrow> nat \<Rightarrow> (py_exception + task_value) \<times> event list" where
  "attempts_from e w st idx attempt =
     (if attempt < max_retrys then
        (case attempt_body e w st idx attempt of
           (elapsed, Inr d) \<Rightarrow> (Inr (TaskDict d), [AgentRun (agent w) st])
         | (elapsed, Inl exc) \<Rightarrow>
             if \<not> exc_is_exception exc then (Inl exc, [AgentRun (agent w) st])
             else if attempt < max_retrys - 1 then
               (case attempts_from e w st idx (attempt + 1) of
                  (r, tr) \<Rightarrow> (r, AgentRun (agent w) st # Sleep 1 # tr))
             else
               (Inl (RuntimeError (error_message e w st idx elapsed exc)), [AgentRun (agent w) st]))
      else (Inr TaskNone, []))"
  by pat_completeness auto
termination
  by (relation "measure (\<lambda>(e, w, st, idx, attempt). max_retrys - attempt)") auto

declare attempts_from.simps [simp del]

definition execute_on_agent :: "env \<Rightarrow> worker \<Rightarrow> string \<Rightarrow> nat \<Rightarrow> (py_exception + task_value) \<times> event list" where
  "execute_on_agent e w st idx = attempts_from e w st idx 0"

subsection \<open>The batch\<close>

record failure =
  error :: string

record batch_result =
  results :: "task_value list"
  failed :: "failure list"
  subtasks_count :: nat
  agents_used :: nat
  pool_size :: int

text \<open>\<^verbatim>\<open>[w for w in worker_pool if not w.is_busy]\<close>, as positions in the pool: a wrapper is
  an object, and marking it busy changes the pool's own element.\<close>

definition idle_workers :: "worker list \<Rightarrow> nat list" where
  "idle_workers pool = filter (\<lambda>i. \<not> is_busy (pool ! i)) [0 ..< length pool]"

text \<open>\<^verbatim>\<open>for agent in available: agent.is_busy = b\<close>\<close>

definition set_busy :: "bool \<Rightarrow> nat list \<Rightarrow> worker list \<Rightarrow> worker list" where
  "set_busy b available pool = fold (\<lambda>i p. p[i := (p ! i)\<lparr>is_busy := b\<rparr>]) available pool"

text \<open>The loop over the gathered results, with its two accumulators and its test
  \<^verbatim>\<open>isinstance(result, Exception)\<close>.\<close>

fun collect :: "(py_exception + task_value) list \<Rightarrow> task_value list \<Rightarrow> failure list \<Rightarrow> task_value list \<times> failure list" where
  "collect [] successful failures = (successful, failures)"
| "collect (Inl exc # rs) successful failures =
     (if exc_is_exception exc then collect rs successful (failures @ [\<lparr>error = exc_str exc\<rparr>])
      else collect rs (successful @ [TaskException exc]) failures)"
| "collect (Inr v # rs) successful failures = collect rs (successful @ [v]) failures"

text \<open>
  \<^verbatim>\<open>execute_subtasks(subtasks)\<close>. Returns what the call returns or raises, the new state,
  and the coroutines it created (worker position, subtask, index).
\<close>

definition execute_subtasks :: "env \<Rightarrow> pool_state \<Rightarrow> string list \<Rightarrow> (py_exception + batch_result) \<times> pool_state \<times> (nat \<times> string \<times> nat) list" where
  "execute_subtasks e s subtasks =
     (case (if \<not> pool_initialized s then initialize_pool e s None else (None, s, [])) of
        (Some exc, s1, started) \<Rightarrow> (Inl exc, s1, [])
      | (None, s1, started) \<Rightarrow>
          if subtasks = [] \<or> length subtasks < 1 then
            (Inl (ValueError ''Must provide at least 1 subtask''), s1, [])
          else
            let max_pool_size = get_max_pool_size s1 (pool_config s1) in
            if int (length subtasks) > max_pool_size then
              (Inl (ValueError (''Too many subtasks ('' @ show_nat (length subtasks)
                      @ '') for pool size ('' @ show_int max_pool_size @ '')'')), s1, [])
            else
              let available = take (length subtasks) (idle_workers (worker_pool s1)) in
              if length available < length subtasks then
                (Inl (RuntimeError (''Not enough agents. Requested: '' @ show_nat (length subtasks)
                        @ '', Available: '' @ show_nat (length available))), s1, [])
              else
                let s2 = s1\<lparr>worker_pool := set_busy True available (worker_pool s1)\<rparr>;
                    tasks = map (\<lambda>(i, a, st). (a, st, i)) (enumerate 0 (zip available subtasks));
                    body =
                      (case gather_interrupt e of
                         Some exc \<Rightarrow> Inl exc
                       | None \<Rightarrow>
                           let rs = map (\<lambda>(a, st, i). fst (execute_on_agent e (worker_pool s2 ! a) st i)) tasks;
                               (successful, failures) = collect rs [] []
                           in Inr \<lparr>results = successful, failed = failures,
                                   subtasks_count = length subtasks,
                                   agents_used = length available,
                                   pool_size = max_pool_size\<rparr>);
                    s3 = s2\<lparr>worker_pool := set_busy False available (worker_pool s2)\<rparr>
                in (body, s3, tasks))"

subsection \<open>Notions used to state the properties\<close>

text \<open>The workers a batch claims: the first idle ones, one per subtask.\<close>

definition available_for :: "pool_state \<Rightarrow> string list \<Rightarrow> nat list" where
  "available_for s1 subtasks = take (length subtasks) (idle_workers (worker_pool s1))"

text \<open>A batch is admitted in a state when it passes the three checks that precede the
  claim: it is not empty, not larger than the configured pool size, and not larger than
  the number of idle workers.\<close>

definition admitted :: "pool_state \<Rightarrow> string list \<Rightarrow> bool" where
  "admitted s1 subtasks \<longleftrightarrow>
     subtasks \<noteq> [] \<and> int (length subtasks) \<le> get_max_pool_size s1 (pool_config s1)
     \<and> length subtasks \<le> length (idle_workers (worker_pool s1))"

text \<open>
  An attempt fails when its \<^verbatim>\<open>try\<close> block raises an \<^verbatim>\<open>Exception\<close>, the kind the
  retry loop catches. A task fails permanently when every one of its five attempts does.
  A task succeeds when one of its attempts returns after all the earlier ones failed.
\<close>

definition attempt_fails :: "env \<Rightarrow> worker \<Rightarrow> string \<Rightarrow> nat \<Rightarrow> nat \<Rightarrow> bool" where
  "attempt_fails e w st idx k =
     (case snd (attempt_body e w st idx k) of Inl exc \<Rightarrow> exc_is_exception exc | Inr d \<Rightarrow> False)"

definition fails_permanently :: "env \<Rightarrow> worker \<Rightarrow> string \<Rightarrow> nat \<Rightarrow> bool" where
  "fails_permanently e w st idx = list_all (attempt_fails e w st idx) [0 ..< max_retrys]"

definition succeeds :: "env \<Rightarrow> worker \<Rightarrow> string \<Rightarrow> nat \<Rightarrow> bool" where
  "succeeds e w st idx =
     list_ex (\<lambda>k. list_all (attempt_fails e w st idx) [0 ..< k]
                  \<and> \<not> isl (snd (attempt_body e w st idx k))) [0 ..< max_retrys]"

text \<open>The worker claimed for the \<open>i\<close>-th subtask of a batch.\<close>

definition claimed_worker :: "pool_state \<Rightarrow> string list \<Rightarrow> nat \<Rightarrow> worker" where
  "claimed_worker s1 subtasks i = worker_pool s1 ! (available_for s1 subtasks ! i)"

text \<open>The message of the \<^verbatim>\<open>RuntimeError\<close> a task raises after its last attempt failed.\<close>

definition failure_text :: "env \<Rightarrow> worker \<Rightarrow> string \<Rightarrow> nat \<Rightarrow> string" where
  "failure_text e w st idx =
     (case attempt_body e w st idx (max_retrys - 1) of
        (elapsed, Inl exc) \<Rightarrow> error_message e w st idx elapsed exc
      | (elapsed, Inr d) \<Rightarrow> [])"

text \<open>The \<^verbatim>\<open>subtask_index\<close> entry of an object listed under \<^verbatim>\<open>results\<close>, if it is a
  result dict.\<close>

definition index_of :: "task_value \<Rightarrow> nat option" where
  "index_of v = (case v of TaskDict d \<Rightarrow> Some (subtask_index d) | _ \<Rightarrow> None)"

text \<open>The dict \<^verbatim>\<open>{"error": str(result)}\<close> that a failure record is, as a Python value.\<close>

definition failure_dict :: "failure \<Rightarrow> (string \<times> pyval) list" where
  "failure_dict f = [(''error'', PStr (error f))]"

text \<open>What the coroutine of the \<open>i\<close>-th subtask returns or raises, and the object
  \<^verbatim>\<open>gather\<close> hands back for it.\<close>

definition task_outcome :: "env \<Rightarrow> pool_state \<Rightarrow> string list \<Rightarrow> nat \<Rightarrow> py_exception + task_value" where
  "task_outcome e s1 subtasks i =
     fst (execute_on_agent e (claimed_worker s1 subtasks i) (subtasks ! i) i)"

definition gathered :: "env \<Rightarrow> pool_state \<Rightarrow> string list \<Rightarrow> nat \<Rightarrow> task_value" where
  "gathered e s1 subtasks i =
     (case task_outcome e s1 subtasks i of Inl exc \<Rightarrow> TaskException exc | Inr v \<Rightarrow> v)"

text \<open>The \<open>i\<close>-th subtask of the batch fails permanently, or succeeds, on its claimed
  worker.\<close>

definition task_fails :: "env \<Rightarrow> pool_state \<Rightarrow> string list \<Rightarrow> nat \<Rightarrow> bool" where
  "task_fails e s1 subtasks i =
     fails_permanently e (claimed_worker s1 subtasks i) (subtasks ! i) i"

definition task_succeeds :: "env \<Rightarrow> pool_state \<Rightarrow> string list \<Rightarrow> nat \<Rightarrow> bool" where
  "task_succeeds e s1 subtasks i =
     succeeds e (claimed_worker s1 subtasks i) (subtasks ! i) i"

text \<open>The failure record of the \<open>i\<close>-th subtask.\<close>

definition task_failure :: "env \<Rightarrow> pool_state \<Rightarrow> string list \<Rightarrow> nat \<Rightarrow> failure" where
  "task_failure e s1 subtasks i =
     \<lparr>error = failure_text e (claimed_worker s1 subtasks i) (subtasks ! i) i\<rparr>"

text \<open>
  The extraction rule in the words of its description: the rendering of \<^verbatim>\<open>output\<close> if
  that key is present; otherwise, if the message list is not empty, the content of its
  last element; otherwise the rendering of the whole response. \<open>None\<close> where the rule
  names a content that the last element does not have.
\<close>

definition claimed_extract :: "env \<Rightarrow> response \<Rightarrow> pyval option" where
  "claimed_extract e r =
     (case map_of r ''output'' of
        Some out \<Rightarrow> Some (PStr (py_str e out))
      | None \<Rightarrow>
          (case map_of r ''messages'' of
             Some (PList ms) \<Rightarrow>
               if ms \<noteq> [] then content_of (last ms) else Some (PStr (py_str e (PDict r)))
           | _ \<Rightarrow> Some (PStr (py_str e (PDict r)))))"

subsection \<open>Example inputs\<close>

definition example_worker :: "nat \<Rightarrow> bool \<Rightarrow> worker" where
  "example_worker i b =
     \<lparr>agent = i, agent_id = ''search_agent_'' @ show_nat i, created_at = 0, last_used = 0,
      is_busy = b, task_count = 0\<rparr>"

text \<open>An initialized pool whose workers have the given busy flags.\<close>

definition example_state :: "bool list \<Rightarrow> pool_state" where
  "example_state busy =
     \<lparr>MAX_POOL_SIZE = int (length busy),
      worker_pool = map (\<lambda>(i, b). example_worker i b) (enumerate 0 busy),
      pool_config = \<lparr>cfg_max_pool_size = Some (int (length busy)), cfg_agent_config = Some []\<rparr>,
      pool_initialized = True\<rparr>"

text \<open>The module as imported: no worker, an empty \<^verbatim>\<open>pool_config\<close>, not initialized.\<close>

definition initial_state :: "int \<Rightarrow> pool_state" where
  "initial_state m =
     \<lparr>MAX_POOL_SIZE = m, worker_pool = [],
      pool_config = \<lparr>cfg_max_pool_size = None, cfg_agent_config = None\<rparr>,
      pool_initialized = False\<rparr>"

definition example_exc :: py_exception where
  "example_exc = \<lparr>exc_type = ''TimeoutError'', exc_str = ''timed out'', exc_is_exception = True\<rparr>"

text \<open>Every executor answers its first call.\<close>

definition example_env :: env where
  "example_env =
     \<lparr>py_str = (\<lambda>v. case v of PStr s \<Rightarrow> s | _ \<Rightarrow> ''?''),
      fmt_secs = show_int,
      format_exc = exc_type,
      agent_run = (\<lambda>a q k. (int k, Inr [(''output'', PStr q)])),
      start_error = None,
      datetime_now = (\<lambda>t. t),
      gather_interrupt = None\<rparr>"

text \<open>The state after a first, explicit initialization with a pool size of 2.\<close>

definition first_init :: pool_state where
  "first_init = fst (snd (initialize_pool example_env (initial_state 3)
                      (Some \<lparr>cfg_max_pool_size = Some 2, cfg_agent_config = None\<rparr>)))"

text \<open>The state after the lazy initialization of a module whose \<^verbatim>\<open>MAX_POOL_SIZE\<close> is 2.\<close>

definition lazy_init :: pool_state where
  "lazy_init = fst (snd (initialize_pool example_env (initial_state 2) None))"

text \<open>The executors do not start.\<close>

definition failing_start_env :: env where
  "failing_start_env = example_env\<lparr>start_error := Some (RuntimeError ''boom'')\<rparr>"

text \<open>The state after the initialization of that module has failed.\<close>

definition failed_init :: pool_state where
  "failed_init = fst (snd (initialize_pool failing_start_env (initial_state 2) None))"

text \<open>The batch is cancelled while it awaits its tasks.\<close>

definition cancelled_env :: env where
  "cancelled_env = example_env\<lparr>gather_interrupt := Some CancelledError\<rparr>"

text \<open>Executor 1 raises on every call; the others answer their first call.\<close>

definition one_fails_env :: env where
  "one_fails_env = example_env\<lparr>agent_run :=
      (\<lambda>a q k. if a = 1 then (int k, Inl example_exc) else (int k, Inr [(''output'', PStr q)]))\<rparr>"

text \<open>Every executor raises on its first four calls and answers the fifth with a
  message list.\<close>

definition flaky_env :: env where
  "flaky_env = example_env\<lparr>agent_run :=
      (\<lambda>a q k. if k < 4 then (int k, Inl example_exc)
                else (int k, Inr [(''messages'', PList [PObj ''AIMessage'' [(''content'', PStr ''found'')]])]))\<rparr>"

text \<open>Every executor raises on its first four calls and answers the fifth with a dict
  whose \<^verbatim>\<open>messages\<close> is the number 5.\<close>

definition bad_fifth_env :: env where
  "bad_fifth_env = example_env\<lparr>agent_run :=
      (\<lambda>a q k. if k < 4 then (int k, Inl example_exc) else (int k, Inr [(''messages'', PInt 5)]))\<rparr>"

text \<open>Executor 0 is cancelled in its first call; the others answer their first call.\<close>

definition cancel_first_env :: env where
  "cancel_first_env = example_env\<lparr>agent_run :=
      (\<lambda>a q k. if a = 0 then (int k, Inl CancelledError) else (int k, Inr [(''output'', PStr q)]))\<rparr>"

text \<open>A response whose last message is a dict without a \<^verbatim>\<open>content\<close> key, and one whose
  last message is an object with a \<^verbatim>\<open>content\<close> attribute.\<close>

definition no_content_response :: response where
  "no_content_response = [(''messages'', PList [PDict [(''role'', PStr ''user'')]])]"

definition message_response :: response where
  "message_response =
     [(''messages'', PList [PDict [(''role'', PStr ''user'')], PObj ''AIMessage'' [(''content'', PStr ''found'')]])]"

section \<open>Properties\<close>

subsection \<open>Auxiliary facts\<close>

lemma lazy_init_eq:
  "(if \<not> pool_initialized s then initialize_pool e s None else (None, s, [])) = initialize_pool e s None"
  by (simp add: initialize_pool_def)

lemma length_set_busy [simp]: "length (set_busy b av pool) = length pool"
  unfolding set_busy_def by (induction av arbitrary: pool) simp_all

lemma nth_set_busy:
  "j < length pool \<Longrightarrow>
   set_busy b av pool ! j = (if j \<in> set av then (pool ! j)\<lparr>is_busy := b\<rparr> else pool ! j)"
  unfolding set_busy_def
proof (induction av arbitrary: pool)
  case Nil
  then show ?case by simp
next
  case (Cons i av)
  let ?p = "pool[i := (pool ! i)\<lparr>is_busy := b\<rparr>]"
  have len: "j < length ?p" using Cons.prems by simp
  show ?case
    using Cons.IH [OF len] Cons.prems
    by (cases "i = j") (simp_all add: nth_list_update)
qed

lemma idle_workers_props:
  "i \<in> set (idle_workers pool) \<Longrightarrow> i < length pool \<and> \<not> is_busy (pool ! i)"
  by (simp add: idle_workers_def)

lemma release_after_claim:
  assumes "set av \<subseteq> set (idle_workers pool)"
  shows "set_busy False av (set_busy True av pool) = pool"
proof (rule nth_equalityI)
  show "length (set_busy False av (set_busy True av pool)) = length pool" by simp
next
  fix j assume "j < length (set_busy False av (set_busy True av pool))"
  then have j: "j < length pool" by simp
  show "set_busy False av (set_busy True av pool) ! j = pool ! j"
  proof (cases "j \<in> set av")
    case True
    with assms have "\<not> is_busy (pool ! j)" using idle_workers_props by blast
    with True j show ?thesis by (simp add: nth_set_busy)
  next
    case False
    with j show ?thesis by (simp add: nth_set_busy)
  qed
qed

lemma collect_closed:
  "collect rs su fa =
     (su @ concat (map (\<lambda>r. case r of Inl x \<Rightarrow> if exc_is_exception x then [] else [TaskException x]
                              | Inr v \<Rightarrow> [v]) rs),
      fa @ concat (map (\<lambda>r. case r of Inl x \<Rightarrow> if exc_is_exception x then [\<lparr>error = exc_str x\<rparr>] else []
                              | Inr v \<Rightarrow> []) rs))"
  by (induction rs su fa rule: collect.induct) simp_all

lemma execute_subtasks_init_failed:
  "initialize_pool e s None = (Some exc, s1, started) \<Longrightarrow>
   execute_subtasks e s subtasks = (Inl exc, s1, [])"
  by (simp add: execute_subtasks_def lazy_init_eq)

lemma execute_subtasks_empty:
  "initialize_pool e s None = (None, s1, started) \<Longrightarrow>
   execute_subtasks e s [] = (Inl (ValueError ''Must provide at least 1 subtask''), s1, [])"
  by (simp add: execute_subtasks_def lazy_init_eq)

lemma execute_subtasks_too_many:
  "initialize_pool e s None = (None, s1, started) \<Longrightarrow> subtasks \<noteq> [] \<Longrightarrow>
   int (length subtasks) > get_max_pool_size s1 (pool_config s1) \<Longrightarrow>
   execute_subtasks e s subtasks =
     (Inl (ValueError (''Too many subtasks ('' @ show_nat (length subtasks)
            @ '') for pool size ('' @ show_int (get_max_pool_size s1 (pool_config s1)) @ '')'')), s1, [])"
  by (simp add: execute_subtasks_def lazy_init_eq Let_def)

lemma execute_subtasks_not_enough:
  "initialize_pool e s None = (None, s1, started) \<Longrightarrow> subtasks \<noteq> [] \<Longrightarrow>
   int (length subtasks) \<le> get_max_pool_size s1 (pool_config s1) \<Longrightarrow>
   length (idle_workers (worker_pool s1)) < length subtasks \<Longrightarrow>
   execute_subtasks e s subtasks =
     (Inl (RuntimeError (''Not enough agents. Requested: '' @ show_nat (length subtasks)
            @ '', Available: '' @ show_nat (length (idle_workers (worker_pool s1))))), s1, [])"
  by (simp add: execute_subtasks_def lazy_init_eq Let_def)

lemma available_subset: "set (available_for s1 subtasks) \<subseteq> set (idle_workers (worker_pool s1))"
  unfolding available_for_def by (rule set_take_subset)

lemma execute_subtasks_admitted:
  assumes init: "initialize_pool e s None = (None, s1, started)"
    and adm: "admitted s1 subtasks"
  shows "execute_subtasks e s subtasks =
     ((case gather_interrupt e of
         Some exc \<Rightarrow> Inl exc
       | None \<Rightarrow>
           let rs = map (\<lambda>(a, st, i).
                      fst (execute_on_agent e (set_busy True (available_for s1 subtasks) (worker_pool s1) ! a) st i))
                      (map (\<lambda>(i, a, st). (a, st, i)) (enumerate 0 (zip (available_for s1 subtasks) subtasks)))
           in Inr \<lparr>results = fst (collect rs [] []), failed = snd (collect rs [] []),
                   subtasks_count = length subtasks,
                   agents_used = length subtasks,
                   pool_size = get_max_pool_size s1 (pool_config s1)\<rparr>),
      s1,
      map (\<lambda>(i, a, st). (a, st, i)) (enumerate 0 (zip (available_for s1 subtasks) subtasks)))"
proof -
  have len: "length (available_for s1 subtasks) = length subtasks"
    using adm by (simp add: admitted_def available_for_def)
  have restored: "s1\<lparr>worker_pool := set_busy False (available_for s1 subtasks)
                    (set_busy True (available_for s1 subtasks) (worker_pool s1))\<rparr> = s1"
    by (simp add: release_after_claim [OF available_subset])
  show ?thesis
    using init adm len restored
    unfolding execute_subtasks_def lazy_init_eq admitted_def available_for_def [symmetric]
    by (simp add: Let_def split: option.split prod.split)
qed


lemma attempt_body_busy [simp]:
  "attempt_body e (w\<lparr>is_busy := b\<rparr>) st idx k = attempt_body e w st idx k"
  by (simp add: attempt_body_def split: prod.split sum.split)

lemma error_message_busy [simp]:
  "error_message e (w\<lparr>is_busy := b\<rparr>) st idx el exc = error_message e w st idx el exc"
  by (simp add: error_message_def)

lemma attempts_from_busy:
  "attempts_from e (w\<lparr>is_busy := b\<rparr>) st idx k = attempts_from e w st idx k"
proof (induction "max_retrys - k" arbitrary: k)
  case 0
  then show ?case by (simp add: attempts_from.simps [of _ _ _ _ k])
next
  case (Suc n)
  then have "n = max_retrys - Suc k" by simp
  then have IH: "attempts_from e (w\<lparr>is_busy := b\<rparr>) st idx (Suc k) = attempts_from e w st idx (Suc k)"
    by (rule Suc.hyps(1))
  show ?case
    by (simp add: attempts_from.simps [of _ _ _ _ k] IH split: prod.split sum.split)
qed

lemma attempt_fails_cases:
  "attempt_fails e w st idx k \<longleftrightarrow>
     (\<exists>el exc. attempt_body e w st idx k = (el, Inl exc) \<and> exc_is_exception exc)"
  by (cases "attempt_body e w st idx k") (auto simp: attempt_fails_def split: sum.splits)

lemma attempts_from_decided:
  assumes "k < max_retrys" and "j \<le> k"
    and "\<forall>i. j \<le> i \<and> i < k \<longrightarrow> attempt_fails e w st idx i"
    and "\<not> attempt_fails e w st idx k"
  shows "attempts_from e w st idx j =
           ((case snd (attempt_body e w st idx k) of Inl exc \<Rightarrow> Inl exc | Inr d \<Rightarrow> Inr (TaskDict d)),
            concat (replicate (k - j) [AgentRun (agent w) st, Sleep 1]) @ [AgentRun (agent w) st])"
  using assms(2,3)
proof (induction j rule: inc_induct)
  case base
  obtain el r where ab: "attempt_body e w st idx k = (el, r)"
    by (cases "attempt_body e w st idx k")
  show ?case
  proof (cases r)
    case (Inl exc)
    with ab assms(4) have "\<not> exc_is_exception exc" by (simp add: attempt_fails_def)
    with ab Inl assms(1) show ?thesis by (simp add: attempts_from.simps [of _ _ _ _ k])
  next
    case (Inr d)
    with ab assms(1) show ?thesis by (simp add: attempts_from.simps [of _ _ _ _ k])
  qed
next
  case (step n)
  have "attempt_fails e w st idx n" using step by simp
  then obtain el exc where ab: "attempt_body e w st idx n = (el, Inl exc)" "exc_is_exception exc"
    by (auto simp: attempt_fails_cases)
  have more: "n < max_retrys - 1" using step.hyps assms(1) by simp
  have IH: "attempts_from e w st idx (Suc n) =
           ((case snd (attempt_body e w st idx k) of Inl exc \<Rightarrow> Inl exc | Inr d \<Rightarrow> Inr (TaskDict d)),
            concat (replicate (k - Suc n) [AgentRun (agent w) st, Sleep 1]) @ [AgentRun (agent w) st])"
    using step by simp
  have rep: "k - n = Suc (k - Suc n)" using step.hyps by simp
  from more have "n < max_retrys" by simp
  with more ab IH show ?case
    by (simp add: attempts_from.simps [of _ _ _ _ n] rep)
qed

lemma attempts_from_exhausted:
  assumes "j \<le> max_retrys - 1"
    and "\<forall>i. j \<le> i \<and> i < max_retrys \<longrightarrow> attempt_fails e w st idx i"
  shows "attempts_from e w st idx j =
           (Inl (RuntimeError (error_message e w st idx
                   (fst (attempt_body e w st idx (max_retrys - 1)))
                   (projl (snd (attempt_body e w st idx (max_retrys - 1)))))),
            concat (replicate (max_retrys - 1 - j) [AgentRun (agent w) st, Sleep 1]) @ [AgentRun (agent w) st])"
  using assms
proof (induction j rule: inc_induct)
  case base
  have "attempt_fails e w st idx (max_retrys - 1)"
    using base by (simp add: max_retrys_def)
  then obtain el exc where "attempt_body e w st idx (max_retrys - 1) = (el, Inl exc)" "exc_is_exception exc"
    by (auto simp: attempt_fails_cases)
  then show ?case
    by (simp add: attempts_from.simps [of _ _ _ _ 4] max_retrys_def)
next
  case (step n)
  have "attempt_fails e w st idx n" using step by simp
  then obtain el exc where ab: "attempt_body e w st idx n = (el, Inl exc)" "exc_is_exception exc"
    by (auto simp: attempt_fails_cases)
  have IH: "attempts_from e w st idx (Suc n) =
           (Inl (RuntimeError (error_message e w st idx
                   (fst (attempt_body e w st idx (max_retrys - 1)))
                   (projl (snd (attempt_body e w st idx (max_retrys - 1)))))),
            concat (replicate (max_retrys - 1 - Suc n) [AgentRun (agent w) st, Sleep 1]) @ [AgentRun (agent w) st])"
    using step by simp
  have rep: "max_retrys - Suc n = Suc (max_retrys - Suc (Suc n))" using step.hyps by simp
  have "n < max_retrys" "n < max_retrys - 1" using step.hyps by simp_all
  with ab IH show ?case
    by (simp add: attempts_from.simps [of _ _ _ _ n] rep)
qed

lemma initialize_pool_workers:
  assumes "initialize_pool e s c = (r, s1, started)"
  shows "prefix (worker_pool s) (worker_pool s1)"
    and "length (filter is_busy (worker_pool s1)) = length (filter is_busy (worker_pool s))"
    and "pool_initialized s \<longrightarrow> s1 = s"
  using assms
  by (auto simp: initialize_pool_def Let_def WorkerAgentWrapper_def filter_empty_conv comp_def
           split: if_splits option.splits)

lemma example_state_init:
  "initialize_pool e (example_state bs) c = (None, example_state bs, [])"
  by (simp add: initialize_pool_def example_state_def)

lemma example_pool_2: "worker_pool (example_state [True, False]) = [example_worker 0 True, example_worker 1 False]"
  by (simp add: example_state_def enumerate_eq_zip upt_rec)


lemma show_nat_digits:
  "show_nat 0 = ''0''" "show_nat 1 = ''1''" "show_nat 2 = ''2''" "show_nat 3 = ''3''"
  "show_nat 4 = ''4''" "show_nat 5 = ''5''"
  "show_nat (Suc 0) = ''1''" "show_nat (Suc (Suc 0)) = ''2''" "show_nat (Suc (Suc (Suc 0))) = ''3''"
  by (simp_all add: show_nat.simps digit_chars_def)

lemma fails_permanently_iff:
  "fails_permanently e w st idx \<longleftrightarrow> (\<forall>k<max_retrys. attempt_fails e w st idx k)"
  by (auto simp: fails_permanently_def list_all_iff)

lemma succeeds_iff:
  "succeeds e w st idx \<longleftrightarrow>
     (\<exists>k<max_retrys. (\<forall>i<k. attempt_fails e w st idx i) \<and> \<not> isl (snd (attempt_body e w st idx k)))"
  unfolding succeeds_def list_ex_iff list_all_iff by (simp add: Bex_def Ball_def)

lemma execute_on_agent_exhausted:
  assumes "fails_permanently e w st idx"
  shows "execute_on_agent e w st idx =
           (Inl (RuntimeError (failure_text e w st idx)),
            concat (replicate (max_retrys - 1) [AgentRun (agent w) st, Sleep 1]) @ [AgentRun (agent w) st])"
proof -
  have all: "\<forall>i. 0 \<le> i \<and> i < max_retrys \<longrightarrow> attempt_fails e w st idx i"
    using assms by (simp add: fails_permanently_iff)
  then have "attempt_fails e w st idx (max_retrys - 1)"
    by (simp add: max_retrys_def)
  then obtain el exc where "attempt_body e w st idx (max_retrys - 1) = (el, Inl exc)"
    by (auto simp: attempt_fails_cases)
  then have "failure_text e w st idx = error_message e w st idx
                   (fst (attempt_body e w st idx (max_retrys - 1)))
                   (projl (snd (attempt_body e w st idx (max_retrys - 1))))"
    by (simp add: failure_text_def)
  with attempts_from_exhausted [of 0 e w st idx, OF _ all] show ?thesis
    by (simp add: execute_on_agent_def)
qed

lemma attempt_body_fields:
  "snd (attempt_body e w st idx k) = Inr d \<Longrightarrow>
   subtask_index d = idx \<and> subtask d = st \<and> res_agent_id d = agent_id w"
  by (auto simp: attempt_body_def split: prod.splits sum.splits)

lemma execute_on_agent_decided:
  assumes "k < max_retrys"
    and "\<forall>i<k. attempt_fails e w st idx i"
    and "\<not> attempt_fails e w st idx k"
  shows "execute_on_agent e w st idx =
           ((case snd (attempt_body e w st idx k) of Inl exc \<Rightarrow> Inl exc | Inr d \<Rightarrow> Inr (TaskDict d)),
            concat (replicate k [AgentRun (agent w) st, Sleep 1]) @ [AgentRun (agent w) st])"
  using attempts_from_decided [of k 0 e w st idx] assms
  by (simp add: execute_on_agent_def)

lemma execute_on_agent_first_success:
  assumes "k < max_retrys"
    and "\<forall>i<k. attempt_fails e w st idx i"
    and "snd (attempt_body e w st idx k) = Inr d"
  shows "execute_on_agent e w st idx =
           (Inr (TaskDict d),
            concat (replicate k [AgentRun (agent w) st, Sleep 1]) @ [AgentRun (agent w) st])"
proof -
  have "\<not> attempt_fails e w st idx k" using assms(3) by (simp add: attempt_fails_def)
  from execute_on_agent_decided [OF assms(1,2) this] assms(3) show ?thesis by simp
qed

lemma deciding_attempt:
  assumes "\<not> fails_permanently e w st idx"
  obtains k where "k < max_retrys" and "\<forall>i<k. attempt_fails e w st idx i"
    and "\<not> attempt_fails e w st idx k"
proof -
  define P where "P k \<longleftrightarrow> k < max_retrys \<and> \<not> attempt_fails e w st idx k" for k
  from assms have "\<exists>k. P k" by (auto simp: fails_permanently_iff P_def)
  then obtain k where Pk: "P k" and least: "\<forall>i<k. \<not> P i"
    using exists_least_iff [of P] by blast
  have "\<forall>i<k. attempt_fails e w st idx i"
    using least Pk by (auto simp: P_def)
  moreover from Pk have "k < max_retrys" "\<not> attempt_fails e w st idx k" by (simp_all add: P_def)
  ultimately show ?thesis using that by blast
qed

lemma execute_on_agent_succeeds:
  assumes "succeeds e w st idx"
  shows "\<exists>d k. fst (execute_on_agent e w st idx) = Inr (TaskDict d)
             \<and> k < max_retrys \<and> snd (attempt_body e w st idx k) = Inr d
             \<and> subtask_index d = idx \<and> subtask d = st \<and> res_agent_id d = agent_id w"
proof -
  from assms obtain k where k: "k < max_retrys" "\<forall>i<k. attempt_fails e w st idx i"
    "\<not> isl (snd (attempt_body e w st idx k))"
    by (auto simp: succeeds_iff)
  from k(3) obtain d where d: "snd (attempt_body e w st idx k) = Inr d"
    by (cases "snd (attempt_body e w st idx k)") auto
  from execute_on_agent_first_success [OF k(1,2) d] attempt_body_fields [OF d] d k(1)
  show ?thesis by auto
qed

lemma execute_on_agent_not_caught:
  assumes "\<not> fails_permanently e w st idx"
  shows "case fst (execute_on_agent e w st idx) of Inl exc \<Rightarrow> \<not> exc_is_exception exc | Inr v \<Rightarrow> True"
proof -
  from assms obtain k where k: "k < max_retrys" "\<forall>i<k. attempt_fails e w st idx i"
    "\<not> attempt_fails e w st idx k"
    by (rule deciding_attempt)
  from execute_on_agent_decided [OF k] k(3) show ?thesis
    by (auto simp: attempt_fails_def split: sum.splits)
qed

lemma execute_on_agent_dict:
  assumes "fst (execute_on_agent e w st idx) = Inr (TaskDict d)"
  shows "\<exists>k<max_retrys. snd (attempt_body e w st idx k) = Inr d"
proof -
  have nf: "\<not> fails_permanently e w st idx"
  proof
    assume "fails_permanently e w st idx"
    from execute_on_agent_exhausted [OF this] assms show False by simp
  qed
  from nf obtain k where k: "k < max_retrys" "\<forall>i<k. attempt_fails e w st idx i"
    "\<not> attempt_fails e w st idx k"
    by (rule deciding_attempt)
  from execute_on_agent_decided [OF k] assms have "snd (attempt_body e w st idx k) = Inr d"
    by (auto split: sum.splits)
  with k(1) show ?thesis by blast
qed

lemma execute_on_agent_aborted:
  assumes "\<not> fails_permanently e w st idx" and "\<not> succeeds e w st idx"
  shows "\<exists>exc. fst (execute_on_agent e w st idx) = Inl exc \<and> \<not> exc_is_exception exc"
proof -
  from assms(1) obtain k where k: "k < max_retrys" "\<forall>i<k. attempt_fails e w st idx i"
    "\<not> attempt_fails e w st idx k"
    by (rule deciding_attempt)
  from assms(2) k(1,2) have "isl (snd (attempt_body e w st idx k))"
    by (auto simp: succeeds_iff)
  then obtain exc where exc: "snd (attempt_body e w st idx k) = Inl exc"
    by (auto simp: isl_def)
  with k(3) have "\<not> exc_is_exception exc" by (simp add: attempt_fails_def)
  with execute_on_agent_decided [OF k] exc show ?thesis by simp
qed

lemma results_by_index:
  assumes "\<forall>i\<in>set xs. (F i \<longrightarrow> (\<exists>x. out i = Inl x \<and> exc_is_exception x))
       \<and> (\<not> F i \<longrightarrow> (case out i of Inl x \<Rightarrow> \<not> exc_is_exception x | Inr v \<Rightarrow> True))"
  shows "concat (map (\<lambda>r. case r of Inl x \<Rightarrow> if exc_is_exception x then [] else [TaskException x]
                              | Inr v \<Rightarrow> [v]) (map out xs))
           = map (\<lambda>i. case out i of Inl x \<Rightarrow> TaskException x | Inr v \<Rightarrow> v) (filter (\<lambda>i. \<not> F i) xs)"
  using assms
proof (induction xs)
  case Nil
  then show ?case by simp
next
  case (Cons a xs)
  then show ?case by (cases "F a"; cases "out a") auto
qed

lemma failures_by_index:
  assumes "\<forall>i\<in>set xs. (F i \<longrightarrow> out i = Inl (RuntimeError (txt i)))
       \<and> (\<not> F i \<longrightarrow> (case out i of Inl x \<Rightarrow> \<not> exc_is_exception x | Inr v \<Rightarrow> True))"
  shows "concat (map (\<lambda>r. case r of Inl x \<Rightarrow> if exc_is_exception x then [\<lparr>error = exc_str x\<rparr>] else []
                              | Inr v \<Rightarrow> []) (map out xs))
           = map (\<lambda>i. \<lparr>error = txt i\<rparr>) (filter F xs)"
  using assms
proof (induction xs)
  case Nil
  then show ?case by simp
next
  case (Cons a xs)
  then show ?case by (cases "F a"; cases "out a") (auto simp: RuntimeError_def)
qed

lemma tasks_by_index:
  assumes "length av = length subtasks"
  shows "map (\<lambda>(i, a, st). (a, st, i)) (enumerate 0 (zip av subtasks))
           = map (\<lambda>i. (av ! i, subtasks ! i, i)) [0 ..< length subtasks]"
  using assms by (intro nth_equalityI) (simp_all add: nth_enumerate_eq)

lemma execute_on_agent_busy:
  "execute_on_agent e (w\<lparr>is_busy := b\<rparr>) st idx = execute_on_agent e w st idx"
  by (simp add: execute_on_agent_def attempts_from_busy)

lemma execute_subtasks_by_index:
  assumes init: "initialize_pool e s None = (None, s1, started)"
    and adm: "admitted s1 subtasks"
  shows "execute_subtasks e s subtasks =
     ((case gather_interrupt e of
         Some exc \<Rightarrow> Inl exc
       | None \<Rightarrow>
           Inr \<lparr>results = concat (map (\<lambda>r. case r of Inl x \<Rightarrow> if exc_is_exception x then [] else [TaskException x]
                                              | Inr v \<Rightarrow> [v])
                              (map (task_outcome e s1 subtasks) [0 ..< length subtasks])),
                failed = concat (map (\<lambda>r. case r of Inl x \<Rightarrow> if exc_is_exception x then [\<lparr>error = exc_str x\<rparr>] else []
                                              | Inr v \<Rightarrow> [])
                              (map (task_outcome e s1 subtasks) [0 ..< length subtasks])),
                subtasks_count = length subtasks,
                agents_used = length subtasks,
                pool_size = get_max_pool_size s1 (pool_config s1)\<rparr>),
      s1,
      map (\<lambda>i. (available_for s1 subtasks ! i, subtasks ! i, i)) [0 ..< length subtasks])"
proof -
  let ?av = "available_for s1 subtasks"
  have len: "length ?av = length subtasks"
    using adm by (simp add: admitted_def available_for_def)
  have rs: "map (\<lambda>(a, st, i). fst (execute_on_agent e (set_busy True ?av (worker_pool s1) ! a) st i))
              (map (\<lambda>i. (?av ! i, subtasks ! i, i)) [0 ..< length subtasks])
            = map (task_outcome e s1 subtasks) [0 ..< length subtasks]"
  proof (rule map_ext [THEN trans [OF map_map]], clarsimp)
    fix i assume i: "i < length subtasks"
    with len have mem: "?av ! i \<in> set ?av" by simp
    with available_subset have "?av ! i \<in> set (idle_workers (worker_pool s1))" by blast
    then have "?av ! i < length (worker_pool s1)" by (simp add: idle_workers_props)
    with mem show "fst (execute_on_agent e (set_busy True ?av (worker_pool s1) ! (?av ! i)) (subtasks ! i) i)
          = task_outcome e s1 subtasks i"
      by (simp add: nth_set_busy execute_on_agent_busy task_outcome_def claimed_worker_def)
  qed
  show ?thesis
    unfolding execute_subtasks_admitted [OF init adm] tasks_by_index [OF len] Let_def rs collect_closed
    by (simp split: option.split)
qed

lemma task_outcome_fails:
  "task_fails e s1 subtasks i \<Longrightarrow>
   task_outcome e s1 subtasks i =
     Inl (RuntimeError (failure_text e (claimed_worker s1 subtasks i) (subtasks ! i) i))"
  by (simp add: task_fails_def task_outcome_def execute_on_agent_exhausted)

lemma task_outcome_not_caught:
  "\<not> task_fails e s1 subtasks i \<Longrightarrow>
   (case task_outcome e s1 subtasks i of Inl x \<Rightarrow> \<not> exc_is_exception x | Inr v \<Rightarrow> True)"
  unfolding task_fails_def task_outcome_def by (rule execute_on_agent_not_caught)

lemma task_outcome_succeeds:
  "task_succeeds e s1 subtasks i \<Longrightarrow>
   \<exists>d. task_outcome e s1 subtasks i = Inr (TaskDict d)
       \<and> subtask_index d = i \<and> subtask d = subtasks ! i
       \<and> res_agent_id d = agent_id (claimed_worker s1 subtasks i)"
  using execute_on_agent_succeeds [of e "claimed_worker s1 subtasks i" "subtasks ! i" i]
  by (auto simp: task_succeeds_def task_outcome_def)

lemma task_succeeds_not_fails:
  "task_succeeds e s1 subtasks i \<Longrightarrow> \<not> task_fails e s1 subtasks i"
  using task_outcome_succeeds [of e s1 subtasks i] task_outcome_fails [of e s1 subtasks i]
  by auto

lemma task_outcome_aborted:
  "\<not> task_fails e s1 subtasks i \<Longrightarrow> \<not> task_succeeds e s1 subtasks i \<Longrightarrow>
   \<exists>exc. task_outcome e s1 subtasks i = Inl exc \<and> \<not> exc_is_exception exc"
  unfolding task_fails_def task_succeeds_def task_outcome_def by (rule execute_on_agent_aborted)

lemma failure_text_form:
  assumes "fails_permanently e w st idx"
  shows "\<exists>el exc. attempt_body e w st idx (max_retrys - 1) = (el, Inl exc) \<and> exc_is_exception exc
           \<and> failure_text e w st idx = error_message e w st idx el exc"
proof -
  from assms have "attempt_fails e w st idx (max_retrys - 1)"
    by (simp add: fails_permanently_iff max_retrys_def)
  then obtain el exc where "attempt_body e w st idx (max_retrys - 1) = (el, Inl exc)" "exc_is_exception exc"
    by (auto simp: attempt_fails_cases)
  then show ?thesis by (simp add: failure_text_def)
qed

lemma admitted_results:
  assumes init: "initialize_pool e s None = (None, s1, started)"
    and adm: "admitted s1 subtasks"
    and res: "fst (execute_subtasks e s subtasks) = Inr r"
  shows "results r = map (gathered e s1 subtasks) (filter (\<lambda>i. \<not> task_fails e s1 subtasks i) [0 ..< length subtasks])"
    and "failed r = map (task_failure e s1 subtasks) (filter (task_fails e s1 subtasks) [0 ..< length subtasks])"
proof -
  have r: "r = \<lparr>results = concat (map (\<lambda>r. case r of Inl x \<Rightarrow> if exc_is_exception x then [] else [TaskException x]
                                              | Inr v \<Rightarrow> [v])
                              (map (task_outcome e s1 subtasks) [0 ..< length subtasks])),
                failed = concat (map (\<lambda>r. case r of Inl x \<Rightarrow> if exc_is_exception x then [\<lparr>error = exc_str x\<rparr>] else []
                                              | Inr v \<Rightarrow> [])
                              (map (task_outcome e s1 subtasks) [0 ..< length subtasks])),
                subtasks_count = length subtasks,
                agents_used = length subtasks,
                pool_size = get_max_pool_size s1 (pool_config s1)\<rparr>"
    using res unfolding execute_subtasks_by_index [OF init adm]
    by (cases "gather_interrupt e") simp_all
  have a: "\<forall>i\<in>set [0 ..< length subtasks].
        (task_fails e s1 subtasks i \<longrightarrow> (\<exists>x. task_outcome e s1 subtasks i = Inl x \<and> exc_is_exception x))
      \<and> (\<not> task_fails e s1 subtasks i \<longrightarrow>
            (case task_outcome e s1 subtasks i of Inl x \<Rightarrow> \<not> exc_is_exception x | Inr v \<Rightarrow> True))"
    using task_outcome_fails task_outcome_not_caught by (simp add: RuntimeError_def)
  have b: "\<forall>i\<in>set [0 ..< length subtasks].
        (task_fails e s1 subtasks i \<longrightarrow> task_outcome e s1 subtasks i =
            Inl (RuntimeError (failure_text e (claimed_worker s1 subtasks i) (subtasks ! i) i)))
      \<and> (\<not> task_fails e s1 subtasks i \<longrightarrow>
            (case task_outcome e s1 subtasks i of Inl x \<Rightarrow> \<not> exc_is_exception x | Inr v \<Rightarrow> True))"
    using task_outcome_fails task_outcome_not_caught by simp
  show "results r = map (gathered e s1 subtasks) (filter (\<lambda>i. \<not> task_fails e s1 subtasks i) [0 ..< length subtasks])"
    unfolding r using results_by_index [OF a] by (simp add: gathered_def [abs_def])
  show "failed r = map (task_failure e s1 subtasks) (filter (task_fails e s1 subtasks) [0 ..< length subtasks])"
    unfolding r using failures_by_index [OF b] by (simp add: task_failure_def [abs_def])
qed

lemma admitted_returns:
  assumes "initialize_pool e s None = (None, s1, started)"
    and "admitted s1 subtasks" and "gather_interrupt e = None"
  shows "\<exists>r. fst (execute_subtasks e s subtasks) = Inr r"
  unfolding execute_subtasks_by_index [OF assms(1,2)] using assms(3) by simp

lemma example_idle_3:
  "idle_workers (worker_pool (example_state [False, False, False])) = [0, 1, 2]"
  by (simp add: example_state_def idle_workers_def example_worker_def enumerate_eq_zip upt_rec)

lemma example_admitted_3:
  "admitted (example_state [False, False, False]) [''a'', ''b'', ''c'']"
  by (simp add: admitted_def example_idle_3) (simp add: example_state_def get_max_pool_size_def)

lemma example_claimed_3:
  "i < 3 \<Longrightarrow> claimed_worker (example_state [False, False, False]) [''a'', ''b'', ''c''] i = example_worker i False"
  by (auto simp: claimed_worker_def available_for_def example_idle_3 less_Suc_eq numeral_3_eq_3)
     (simp_all add: example_state_def enumerate_eq_zip upt_rec)

lemma example_task_fails_3:
  "task_fails one_fails_env (example_state [False, False, False]) [''a'', ''b'', ''c''] i \<longleftrightarrow> i = 1"
  if "i < 3"
proof -
  have w: "claimed_worker (example_state [False, False, False]) [''a'', ''b'', ''c''] i = example_worker i False"
    using that by (rule example_claimed_3)
  have "attempt_fails one_fails_env (example_worker i False) ([''a'', ''b'', ''c''] ! i) i k \<longleftrightarrow> i = 1" for k
    by (simp add: attempt_fails_def attempt_body_def one_fails_env_def example_env_def example_worker_def
          extract_output_from_dict_def example_exc_def)
  moreover have "(0::nat) < max_retrys" by (simp add: max_retrys_def)
  ultimately show ?thesis
    unfolding task_fails_def w fails_permanently_iff by blast
qed

lemma example_task_succeeds_3:
  "task_succeeds one_fails_env (example_state [False, False, False]) [''a'', ''b'', ''c''] i \<longleftrightarrow> i \<noteq> 1"
  if "i < 3"
proof -
  have w: "claimed_worker (example_state [False, False, False]) [''a'', ''b'', ''c''] i = example_worker i False"
    using that by (rule example_claimed_3)
  have "isl (snd (attempt_body one_fails_env (example_worker i False) ([''a'', ''b'', ''c''] ! i) i k)) \<longleftrightarrow> i = 1" for k
    by (simp add: attempt_body_def one_fails_env_def example_env_def example_worker_def
          extract_output_from_dict_def)
  moreover have "(0::nat) < max_retrys" by (simp add: max_retrys_def)
  ultimately show ?thesis
    unfolding task_succeeds_def w succeeds_iff by (metis not_less0)
qed

lemma example_task_failure_3:
  "task_failure one_fails_env (example_state [False, False, False]) [''a'', ''b'', ''c''] 1 =
     \<lparr>error = ''Agent search_agent_1 failed after 5 attempts (took 4s)\<newline>Subtask [1]: b\<newline>Error type: TimeoutError\<newline>Error message: timed out\<newline>Full traceback:\<newline>TimeoutError''\<rparr>"
proof -
  have w: "claimed_worker (example_state [False, False, False]) [''a'', ''b'', ''c''] 1 = example_worker 1 False"
    by (simp add: example_claimed_3)
  have a: "attempt_body one_fails_env (example_worker 1 False) ''b'' 1 4 = (4, Inl example_exc)"
    by (simp add: attempt_body_def one_fails_env_def example_env_def example_worker_def)
  have n: "[''a'', ''b'', ''c''] ! 1 = ''b''" by simp
  have ft: "failure_text one_fails_env (example_worker 1 False) ''b'' 1
              = error_message one_fails_env (example_worker 1 False) ''b'' 1 4 example_exc"
    using a by (simp add: failure_text_def max_retrys_def)
  have f: "fmt_secs one_fails_env 4 = ''4''" "format_exc one_fails_env example_exc = ''TimeoutError''"
    "exc_type example_exc = ''TimeoutError''" "exc_str example_exc = ''timed out''"
    "agent_id (example_worker 1 False) = ''search_agent_1''"
    by (simp_all add: one_fails_env_def example_env_def show_int_def show_nat_digits example_exc_def
          example_worker_def)
  have em: "error_message one_fails_env (example_worker 1 False) ''b'' 1 4 example_exc =
     ''Agent search_agent_1 failed after 5 attempts (took 4s)\<newline>Subtask [1]: b\<newline>Error type: TimeoutError\<newline>Error message: timed out\<newline>Full traceback:\<newline>TimeoutError''"
    unfolding error_message_def f max_retrys_def show_nat_digits by simp
  show ?thesis
    unfolding task_failure_def w n ft em ..
qed

lemma one_fails_env_no_interrupt: "gather_interrupt one_fails_env = None"
  by (simp add: one_fails_env_def example_env_def)

lemma attempt_body_raises:
  "snd (agent_run e (agent w) st k) = Inl exc \<Longrightarrow> snd (attempt_body e w st idx k) = Inl exc"
  by (auto simp: attempt_body_def split: prod.splits)

lemma attempt_body_returns:
  "agent_run e (agent w) st k = (el, Inr resp) \<Longrightarrow> extract_output_from_dict e resp = Inr txt \<Longrightarrow>
   attempt_body e w st idx k =
     (el, Inr \<lparr>subtask_index = idx, subtask = st, result = txt,
               res_agent_id = agent_id w, time_taken_seconds = el\<rparr>)"
  by (simp add: attempt_body_def)

lemma attempt_body_extracts:
  "snd (attempt_body e w st idx k) = Inr d \<Longrightarrow>
   \<exists>el resp. agent_run e (agent w) st k = (el, Inr resp) \<and> extract_output_from_dict e resp = Inr (result d)"
  by (auto simp: attempt_body_def split: prod.splits sum.splits)

lemma example_idle_1: "idle_workers (worker_pool (example_state [False])) = [0]"
  by (simp add: example_state_def idle_workers_def example_worker_def enumerate_eq_zip)

lemma example_admitted_1: "admitted (example_state [False]) [''q'']"
  by (simp add: admitted_def example_idle_1) (simp add: example_state_def get_max_pool_size_def)

lemma example_pool_1: "worker_pool (example_state [False]) = [example_worker 0 False]"
  by (simp add: example_state_def enumerate_eq_zip)

lemma lazy_init_run:
  "initialize_pool example_env (initial_state 2) None = (None, lazy_init, [0, 1])"
  by (simp add: lazy_init_def initialize_pool_def initial_state_def example_env_def Let_def
        get_max_pool_size_def upt_rec)

lemma lazy_init_pool:
  "map is_busy (worker_pool lazy_init) = [False, False]"
  by (simp add: lazy_init_def initialize_pool_def initial_state_def example_env_def Let_def
        get_max_pool_size_def upt_rec WorkerAgentWrapper_def)

lemma initialize_pool_initialized:
  "pool_initialized s \<Longrightarrow> initialize_pool e s c = (None, s, [])"
  by (simp add: initialize_pool_def)

lemma failed_init_run:
  "initialize_pool failing_start_env (initial_state 2) None = (Some (RuntimeError ''boom''), failed_init, [0, 1])"
  by (simp add: failed_init_def initialize_pool_def initial_state_def failing_start_env_def example_env_def
        Let_def get_max_pool_size_def upt_rec)

lemma failed_init_size:
  "get_max_pool_size failed_init (pool_config failed_init) = 2"
  by (simp add: failed_init_def initialize_pool_def initial_state_def failing_start_env_def example_env_def
        Let_def get_max_pool_size_def upt_rec)

lemma lazy_init_facts:
  "pool_initialized lazy_init" "length (worker_pool lazy_init) = 2"
  by (simp_all add: lazy_init_def initialize_pool_def initial_state_def example_env_def Let_def
        get_max_pool_size_def upt_rec)

lemma example_idle_2:
  "idle_workers (worker_pool (example_state [False, False])) = [0, 1]"
  by (simp add: example_state_def idle_workers_def example_worker_def enumerate_eq_zip upt_rec)

lemma example_admitted_2:
  "admitted (example_state [False, False]) [''a'', ''b'']"
  by (simp add: admitted_def example_idle_2) (simp add: example_state_def get_max_pool_size_def)

lemma example_claimed_2:
  "i < 2 \<Longrightarrow> claimed_worker (example_state [False, False]) [''a'', ''b''] i = example_worker i False"
  by (auto simp: claimed_worker_def available_for_def example_idle_2 less_Suc_eq numeral_2_eq_2)
     (simp_all add: example_state_def enumerate_eq_zip upt_rec)

lemma cancel_first_env_no_interrupt: "gather_interrupt cancel_first_env = None"
  by (simp add: cancel_first_env_def example_env_def)

lemma cancel_first_attempt:
  "attempt_body cancel_first_env (example_worker 0 b) st idx k = (int k, Inl CancelledError)"
  by (simp add: attempt_body_def cancel_first_env_def example_worker_def)

lemma cancel_first_run:
  "execute_on_agent cancel_first_env (example_worker 0 b) st idx = (Inl CancelledError, [AgentRun 0 st])"
proof -
  have nf: "\<not> attempt_fails cancel_first_env (example_worker 0 b) st idx 0"
    by (simp add: attempt_fails_def cancel_first_attempt CancelledError_def)
  have "(0::nat) < max_retrys" by (simp add: max_retrys_def)
  from execute_on_agent_decided [OF this _ nf]
  have "execute_on_agent cancel_first_env (example_worker 0 b) st idx =
          (Inl CancelledError, [AgentRun (agent (example_worker 0 b)) st])"
    unfolding cancel_first_attempt by simp
  moreover have "agent (example_worker 0 b) = 0" by (simp add: example_worker_def)
  ultimately show ?thesis by simp
qed

lemma cancel_first_tasks:
  "\<not> task_fails cancel_first_env (example_state [False, False]) [''a'', ''b''] 0"
  "\<not> task_succeeds cancel_first_env (example_state [False, False]) [''a'', ''b''] 0"
  "gathered cancel_first_env (example_state [False, False]) [''a'', ''b''] 0 = TaskException CancelledError"
proof -
  have w: "claimed_worker (example_state [False, False]) [''a'', ''b''] 0 = example_worker 0 False"
    by (simp add: example_claimed_2)
  have out: "task_outcome cancel_first_env (example_state [False, False]) [''a'', ''b''] 0 = Inl CancelledError"
    by (simp add: task_outcome_def w cancel_first_run)
  show "\<not> task_fails cancel_first_env (example_state [False, False]) [''a'', ''b''] 0"
    using task_outcome_fails [of cancel_first_env "example_state [False, False]" "[''a'', ''b'']" 0] out
    by (auto simp: RuntimeError_def CancelledError_def)
  show "\<not> task_succeeds cancel_first_env (example_state [False, False]) [''a'', ''b''] 0"
    using task_outcome_succeeds [of cancel_first_env "example_state [False, False]" "[''a'', ''b'']" 0] out
    by auto
  show "gathered cancel_first_env (example_state [False, False]) [''a'', ''b''] 0 = TaskException CancelledError"
    by (simp add: gathered_def out)
qed

lemma cancel_first_task_1:
  "task_succeeds cancel_first_env (example_state [False, False]) [''a'', ''b''] 1"
proof -
  have w: "claimed_worker (example_state [False, False]) [''a'', ''b''] 1 = example_worker 1 False"
    by (simp add: example_claimed_2)
  have "\<not> isl (snd (attempt_body cancel_first_env (example_worker 1 False) ([''a'', ''b''] ! 1) 1 0))"
    by (simp add: attempt_body_def cancel_first_env_def example_env_def example_worker_def
          extract_output_from_dict_def)
  moreover have "(0::nat) < max_retrys" by (simp add: max_retrys_def)
  ultimately show ?thesis
    unfolding task_succeeds_def w succeeds_iff by (metis not_less0)
qed

lemma index_of_gathered:
  "task_succeeds e s1 subtasks i \<Longrightarrow> index_of (gathered e s1 subtasks i) = Some i"
  using task_outcome_succeeds [of e s1 subtasks i]
  by (auto simp: gathered_def index_of_def)

lemma failure_dict_form:
  assumes "task_fails e s1 subtasks i"
  shows "\<exists>el exc. failure_dict (task_failure e s1 subtasks i) =
           [(''error'', PStr (error_message e (claimed_worker s1 subtasks i) (subtasks ! i) i el exc))]"
  using failure_text_form [of e "claimed_worker s1 subtasks i" "subtasks ! i" i] assms
  by (auto simp: task_fails_def task_failure_def failure_dict_def)

lemma attempt_fails_raised:
  "snd (agent_run e (agent w) st k) = Inl exc \<Longrightarrow> exc_is_exception exc \<Longrightarrow> attempt_fails e w st idx k"
  by (simp add: attempt_fails_def attempt_body_raises)

lemma example_worker_0: "agent_id (example_worker 0 b) = ''search_agent_0''" "agent (example_worker 0 b) = 0"
  by (simp_all add: example_worker_def show_nat_digits)

lemma four_rounds:
  "concat (replicate 4 [AgentRun 0 ''q'', Sleep 1]) @ [AgentRun 0 ''q''] =
        [AgentRun 0 ''q'', Sleep 1, AgentRun 0 ''q'', Sleep 1, AgentRun 0 ''q'', Sleep 1,
         AgentRun 0 ''q'', Sleep 1, AgentRun 0 ''q'']"
  by (simp add: numeral_eq_Suc)

subsection \<open>Pool initialization\<close>

text \<open>
  C9. Initialization is idempotent: on an initialized pool, \<^verbatim>\<open>initialize_pool\<close> with any
  configuration returns at once, raises nothing, starts no executor and leaves the whole
  module state (pool size, workers, configuration) as it was.
\<close>

theorem initialize_pool_idempotent:
  assumes "pool_initialized s"
  shows "initialize_pool e s config_arg = (None, s, [])"
  using assms by (simp add: initialize_pool_def)

theorem initialize_pool_idempotent_witness:
  "pool_initialized first_init \<and> length (worker_pool first_init) = 2
   \<and> initialize_pool example_env first_init
        (Some \<lparr>cfg_max_pool_size = Some 5, cfg_agent_config = None\<rparr>) = (None, first_init, [])"
proof -
  have h: "pool_initialized first_init"
    by (simp add: first_init_def initialize_pool_def initial_state_def example_env_def Let_def)
  have l: "length (worker_pool first_init) = 2"
    by (simp add: first_init_def initialize_pool_def initial_state_def example_env_def Let_def
          get_max_pool_size_def)
  show ?thesis
    using initialize_pool_idempotent [OF h] h l by simp
qed

subsection \<open>Admission\<close>

text \<open>
  C2. Admission is all-or-nothing. Let \<open>s1\<close> be the state at claim time (the state the
  call starts in, after the lazy initialization when the pool was not initialized yet).
  If a batch passes validation and fewer workers are idle in \<open>s1\<close> than the batch has
  subtasks, the call raises the "Not enough agents" error, creates no task coroutine, and
  ends in \<open>s1\<close>: no busy flag has changed.
\<close>

theorem insufficient_idle_rejects_batch:
  assumes "initialize_pool e s None = (None, s1, started)"
    and "subtasks \<noteq> []"
    and "int (length subtasks) \<le> get_max_pool_size s1 (pool_config s1)"
    and "length (idle_workers (worker_pool s1)) < length subtasks"
  shows "execute_subtasks e s subtasks =
           (Inl (RuntimeError (''Not enough agents. Requested: '' @ show_nat (length subtasks)
                   @ '', Available: '' @ show_nat (length (idle_workers (worker_pool s1))))),
            s1, [])
         \<and> (pool_initialized s \<longrightarrow> s1 = s)"
  using execute_subtasks_not_enough [OF assms] initialize_pool_workers(3) [OF assms(1)]
  by simp

theorem insufficient_idle_rejects_batch_witness:
  "length (idle_workers (worker_pool (example_state [True, False]))) < length [''a'', ''b'']
   \<and> execute_subtasks example_env (example_state [True, False]) [''a'', ''b''] =
       (Inl (RuntimeError ''Not enough agents. Requested: 2, Available: 1''),
        example_state [True, False], [])"
proof -
  have h1: "initialize_pool example_env (example_state [True, False]) None
              = (None, example_state [True, False], [])"
    by (rule example_state_init)
  have h2: "[''a'', ''b''] \<noteq> ([] :: string list)" by simp
  have h3: "int (length [''a'', ''b'']) \<le>
        get_max_pool_size (example_state [True, False]) (pool_config (example_state [True, False]))"
    by (simp add: get_max_pool_size_def example_state_def)
  have idle: "idle_workers (worker_pool (example_state [True, False])) = [1]"
    by (simp add: example_pool_2 idle_workers_def example_worker_def upt_rec)
  have h4: "length (idle_workers (worker_pool (example_state [True, False]))) < length [''a'', ''b'']"
    by (simp add: idle)
  show ?thesis
    using insufficient_idle_rejects_batch [OF h1 h2 h3 h4] h4
    by (simp add: idle show_nat_digits)
qed

text \<open>
  C6, as the code has it. For an empty batch and for a batch larger than the configured
  pool size, the call does what the lazy initialization and the validation after it do.
  On an initialized pool it raises a \<^verbatim>\<open>ValueError\<close>, a different one for each of the two
  cases, creates no task coroutine and leaves the module state as it was. On a module
  that is not initialized yet it first initializes the pool, creating and starting the
  workers. If that succeeds the batch is rejected with the same two errors in the
  initialized state \<open>s1\<close>, whose pool extends the former one and has as many busy workers:
  none is claimed. If it fails, the call raises the initialization error, whatever the
  batch.
\<close>

theorem invalid_batch_size_rejected:
  assumes "initialize_pool e s None = (r, s1, started)"
    and "subtasks = [] \<or> int (length subtasks) > get_max_pool_size s1 (pool_config s1)"
  shows "execute_subtasks e s subtasks =
           (Inl (case r of
                   Some exc \<Rightarrow> exc
                 | None \<Rightarrow>
                     if subtasks = [] then ValueError ''Must provide at least 1 subtask''
                     else ValueError (''Too many subtasks ('' @ show_nat (length subtasks)
                        @ '') for pool size ('' @ show_int (get_max_pool_size s1 (pool_config s1)) @ '')'')),
            s1, [])
         \<and> ValueError ''Must provide at least 1 subtask'' \<noteq>
             ValueError (''Too many subtasks ('' @ show_nat (length subtasks)
                        @ '') for pool size ('' @ show_int (get_max_pool_size s1 (pool_config s1)) @ '')'')
         \<and> (pool_initialized s \<longrightarrow> r = None \<and> s1 = s \<and> started = [])
         \<and> prefix (worker_pool s) (worker_pool s1)
         \<and> length (filter is_busy (worker_pool s1)) = length (filter is_busy (worker_pool s))"
proof -
  have run: "execute_subtasks e s subtasks =
           (Inl (case r of
                   Some exc \<Rightarrow> exc
                 | None \<Rightarrow>
                     if subtasks = [] then ValueError ''Must provide at least 1 subtask''
                     else ValueError (''Too many subtasks ('' @ show_nat (length subtasks)
                        @ '') for pool size ('' @ show_int (get_max_pool_size s1 (pool_config s1)) @ '')'')),
            s1, [])"
  proof (cases r)
    case (Some exc)
    with assms(1) execute_subtasks_init_failed [of e s exc s1 started subtasks] show ?thesis by simp
  next
    case None
    note init = assms(1) [unfolded None]
    show ?thesis
    proof (cases "subtasks = []")
      case True
      then show ?thesis using execute_subtasks_empty [OF init] None by simp
    next
      case False
      with assms(2) have "int (length subtasks) > get_max_pool_size s1 (pool_config s1)" by simp
      from execute_subtasks_too_many [OF init False this] False None show ?thesis by simp
    qed
  qed
  have diff: "ValueError ''Must provide at least 1 subtask'' \<noteq>
             ValueError (''Too many subtasks ('' @ show_nat (length subtasks)
                        @ '') for pool size ('' @ show_int (get_max_pool_size s1 (pool_config s1)) @ '')'')"
    by (simp add: ValueError_def)
  have same: "pool_initialized s \<longrightarrow> r = None \<and> s1 = s \<and> started = []"
    using assms(1) initialize_pool_initialized [of s e None] by auto
  from run diff same initialize_pool_workers(1,2) [OF assms(1)] show ?thesis by simp
qed

theorem invalid_batch_size_rejected_witness:
  "execute_subtasks example_env (example_state [False, False]) [] =
       (Inl (ValueError ''Must provide at least 1 subtask''), example_state [False, False], [])
   \<and> execute_subtasks example_env (example_state [False, False]) [''a'', ''b'', ''c''] =
       (Inl (ValueError ''Too many subtasks (3) for pool size (2)''), example_state [False, False], [])
   \<and> execute_subtasks example_env (initial_state 2) [] =
       (Inl (ValueError ''Must provide at least 1 subtask''), lazy_init, [])
   \<and> map is_busy (worker_pool lazy_init) = [False, False]
   \<and> execute_subtasks failing_start_env (initial_state 2) [''a'', ''b'', ''c''] =
       (Inl (RuntimeError ''boom''), failed_init, [])"
proof -
  have h1: "initialize_pool example_env (example_state [False, False]) None
              = (None, example_state [False, False], [])"
    by (rule example_state_init)
  have m: "get_max_pool_size (example_state [False, False]) (pool_config (example_state [False, False])) = 2"
    by (simp add: get_max_pool_size_def example_state_def)
  have h2: "([] :: string list) = [] \<or> int (length ([] :: string list)) >
        get_max_pool_size (example_state [False, False]) (pool_config (example_state [False, False]))"
    by simp
  have h3: "[''a'', ''b'', ''c''] = [] \<or> int (length [''a'', ''b'', ''c'']) >
        get_max_pool_size (example_state [False, False]) (pool_config (example_state [False, False]))"
    by (simp add: m)
  have h4: "([] :: string list) = [] \<or> int (length ([] :: string list)) >
        get_max_pool_size lazy_init (pool_config lazy_init)"
    by simp
  have h5: "[''a'', ''b'', ''c''] = [] \<or> int (length [''a'', ''b'', ''c'']) >
        get_max_pool_size failed_init (pool_config failed_init)"
    by (simp add: failed_init_size)
  show ?thesis
    using invalid_batch_size_rejected [OF h1 h2] invalid_batch_size_rejected [OF h1 h3]
      invalid_batch_size_rejected [OF lazy_init_run h4] lazy_init_pool
      invalid_batch_size_rejected [OF failed_init_run h5]
    by (simp add: m show_nat_digits show_int_def)
qed

text \<open>
  C6, as it is worded, fails on a module that is not initialized yet: the rejected empty
  batch leaves a pool of two started workers where there was none, and when the start
  fails an empty and an oversized batch raise the same error.
\<close>

theorem invalid_batch_size_counterexample:
  "\<not> pool_initialized (initial_state 2)
   \<and> worker_pool (initial_state 2) = []
   \<and> execute_subtasks example_env (initial_state 2) [] =
       (Inl (ValueError ''Must provide at least 1 subtask''), lazy_init, [])
   \<and> pool_initialized lazy_init
   \<and> length (worker_pool lazy_init) = 2
   \<and> fst (execute_subtasks failing_start_env (initial_state 2) []) = Inl (RuntimeError ''boom'')
   \<and> fst (execute_subtasks failing_start_env (initial_state 2) [''a'', ''b'', ''c'']) = Inl (RuntimeError ''boom'')"
proof -
  have a: "\<not> pool_initialized (initial_state 2)" "worker_pool (initial_state 2) = []"
    by (simp_all add: initial_state_def)
  have b: "execute_subtasks example_env (initial_state 2) [] =
       (Inl (ValueError ''Must provide at least 1 subtask''), lazy_init, [])"
    by (rule execute_subtasks_empty [OF lazy_init_run])
  have c: "fst (execute_subtasks failing_start_env (initial_state 2) []) = Inl (RuntimeError ''boom'')"
    "fst (execute_subtasks failing_start_env (initial_state 2) [''a'', ''b'', ''c'']) = Inl (RuntimeError ''boom'')"
    by (simp_all add: execute_subtasks_init_failed [OF failed_init_run])
  from a b c lazy_init_facts show ?thesis by (intro conjI)
qed

subsection \<open>Admitted batches\<close>

text \<open>
  C1. For a batch admitted in the state \<open>s1\<close> at claim time, the call returns a batch
  result unless the batch itself is interrupted while awaiting its tasks, and every
  batch result it returns has as many records, successes and failures together, as the
  batch has subtasks.
\<close>

theorem batch_result_counts:
  assumes "initialize_pool e s None = (None, s1, started)"
    and "admitted s1 subtasks"
  shows "(gather_interrupt e = None \<longrightarrow> (\<exists>r. fst (execute_subtasks e s subtasks) = Inr r))
       \<and> (\<forall>r. fst (execute_subtasks e s subtasks) = Inr r \<longrightarrow>
             length (results r) + length (failed r) = length subtasks
             \<and> subtasks_count r = length subtasks)"
proof (intro conjI impI allI)
  assume "gather_interrupt e = None"
  with assms show "\<exists>r. fst (execute_subtasks e s subtasks) = Inr r"
    by (rule admitted_returns)
next
  fix r assume res: "fst (execute_subtasks e s subtasks) = Inr r"
  have "length (results r) + length (failed r) = length [0 ..< length subtasks]"
    unfolding admitted_results [OF assms res]
    using sum_length_filter_compl [of "task_fails e s1 subtasks" "[0 ..< length subtasks]"]
    by simp
  then show "length (results r) + length (failed r) = length subtasks" by simp
  show "subtasks_count r = length subtasks"
    using res unfolding execute_subtasks_by_index [OF assms]
    by (cases "gather_interrupt e") auto
qed

theorem batch_result_counts_witness:
  "admitted (example_state [False, False, False]) [''a'', ''b'', ''c'']
   \<and> (\<exists>r. fst (execute_subtasks one_fails_env (example_state [False, False, False]) [''a'', ''b'', ''c'']) = Inr r
          \<and> length (results r) + length (failed r) = 3)"
proof -
  have g: "gather_interrupt one_fails_env = None"
    by (simp add: one_fails_env_def example_env_def)
  show ?thesis
    using batch_result_counts [OF example_state_init example_admitted_3, of one_fails_env] g
      example_admitted_3
    by auto
qed

text \<open>
  C3. Whatever an admitted batch does after the claim (all tasks succeed, some or all
  fail, or the await of the tasks raises), the call ends in the claim-time state \<open>s1\<close>:
  every worker it claimed is idle again, as many workers are idle as before, and the
  tasks ran on exactly the claimed workers.
\<close>

theorem claimed_workers_released:
  assumes "initialize_pool e s None = (None, s1, started)"
    and "admitted s1 subtasks"
  shows "fst (snd (execute_subtasks e s subtasks)) = s1
       \<and> (\<forall>i\<in>set (available_for s1 subtasks).
             \<not> is_busy (worker_pool (fst (snd (execute_subtasks e s subtasks))) ! i))
       \<and> length (idle_workers (worker_pool (fst (snd (execute_subtasks e s subtasks)))))
           = length (idle_workers (worker_pool s1))
       \<and> map fst (snd (snd (execute_subtasks e s subtasks))) = available_for s1 subtasks
       \<and> (\<forall>exc. gather_interrupt e = Some exc \<longrightarrow> fst (execute_subtasks e s subtasks) = Inl exc)"
proof -
  have len: "length (available_for s1 subtasks) = length subtasks"
    using assms(2) by (simp add: admitted_def available_for_def)
  have st: "fst (snd (execute_subtasks e s subtasks)) = s1"
    unfolding execute_subtasks_by_index [OF assms] by simp
  have idle: "\<forall>i\<in>set (available_for s1 subtasks). \<not> is_busy (worker_pool s1 ! i)"
    using available_subset idle_workers_props by blast
  have launched: "map fst (snd (snd (execute_subtasks e s subtasks))) = available_for s1 subtasks"
    unfolding execute_subtasks_by_index [OF assms]
    using len by (intro nth_equalityI) simp_all
  have raised: "\<forall>exc. gather_interrupt e = Some exc \<longrightarrow> fst (execute_subtasks e s subtasks) = Inl exc"
    unfolding execute_subtasks_by_index [OF assms] by simp
  from st idle launched raised show ?thesis by simp
qed

theorem claimed_workers_released_witness:
  "admitted (example_state [False, False, False]) [''a'', ''b'', ''c'']
   \<and> available_for (example_state [False, False, False]) [''a'', ''b'', ''c''] = [0, 1, 2]
   \<and> fst (snd (execute_subtasks one_fails_env (example_state [False, False, False]) [''a'', ''b'', ''c'']))
       = example_state [False, False, False]
   \<and> fst (execute_subtasks cancelled_env (example_state [False, False, False]) [''a'', ''b'', ''c''])
       = Inl CancelledError
   \<and> fst (snd (execute_subtasks cancelled_env (example_state [False, False, False]) [''a'', ''b'', ''c'']))
       = example_state [False, False, False]"
proof -
  have g: "gather_interrupt cancelled_env = Some CancelledError"
    by (simp add: cancelled_env_def)
  have av: "available_for (example_state [False, False, False]) [''a'', ''b'', ''c''] = [0, 1, 2]"
    by (simp add: available_for_def example_idle_3)
  show ?thesis
    using claimed_workers_released [OF example_state_init example_admitted_3, of one_fails_env]
      claimed_workers_released [OF example_state_init example_admitted_3, of cancelled_env]
      g av example_admitted_3
    by simp
qed

text \<open>
  C5. In an admitted batch that is not interrupted, the call returns a batch result and
  raises nothing, whatever the tasks do. Each task that exhausts its attempts (all five
  raise an \<^verbatim>\<open>Exception\<close>) has its failure record in \<^verbatim>\<open>failed\<close>; each task that succeeds
  has a result dict with its index, its subtask and its worker's id in \<^verbatim>\<open>results\<close>; and
  a task that neither exhausts its attempts nor succeeds (it was ended by an exception
  that is not an \<^verbatim>\<open>Exception\<close>) has that exception object in \<^verbatim>\<open>results\<close>.
\<close>

theorem task_failures_contained:
  assumes "initialize_pool e s None = (None, s1, started)"
    and "admitted s1 subtasks"
    and "gather_interrupt e = None"
  shows "\<exists>r. fst (execute_subtasks e s subtasks) = Inr r
       \<and> (\<forall>i<length subtasks.
            (task_fails e s1 subtasks i \<longrightarrow> task_failure e s1 subtasks i \<in> set (failed r))
          \<and> (task_succeeds e s1 subtasks i \<longrightarrow>
               (\<exists>d. TaskDict d \<in> set (results r) \<and> subtask_index d = i \<and> subtask d = subtasks ! i
                    \<and> res_agent_id d = agent_id (claimed_worker s1 subtasks i)))
          \<and> (\<not> task_fails e s1 subtasks i \<and> \<not> task_succeeds e s1 subtasks i \<longrightarrow>
               (\<exists>exc. TaskException exc \<in> set (results r) \<and> \<not> exc_is_exception exc)))"
proof -
  obtain r where r: "fst (execute_subtasks e s subtasks) = Inr r"
    using admitted_returns [OF assms] by blast
  note parts = admitted_results [OF assms(1,2) r]
  have listed: "gathered e s1 subtasks i \<in> set (results r)"
    if "i < length subtasks" "\<not> task_fails e s1 subtasks i" for i
  proof -
    have "i \<in> set (filter (\<lambda>i. \<not> task_fails e s1 subtasks i) [0 ..< length subtasks])"
      using that by simp
    then show ?thesis unfolding parts(1) set_map by (rule imageI)
  qed
  have "\<forall>i<length subtasks.
            (task_fails e s1 subtasks i \<longrightarrow> task_failure e s1 subtasks i \<in> set (failed r))
          \<and> (task_succeeds e s1 subtasks i \<longrightarrow>
               (\<exists>d. TaskDict d \<in> set (results r) \<and> subtask_index d = i \<and> subtask d = subtasks ! i
                    \<and> res_agent_id d = agent_id (claimed_worker s1 subtasks i)))
          \<and> (\<not> task_fails e s1 subtasks i \<and> \<not> task_succeeds e s1 subtasks i \<longrightarrow>
               (\<exists>exc. TaskException exc \<in> set (results r) \<and> \<not> exc_is_exception exc))"
  proof (intro allI impI conjI)
    fix i assume i: "i < length subtasks" and f: "task_fails e s1 subtasks i"
    have "i \<in> set (filter (task_fails e s1 subtasks) [0 ..< length subtasks])"
      using i f by simp
    then show "task_failure e s1 subtasks i \<in> set (failed r)"
      unfolding parts(2) set_map by (rule imageI)
  next
    fix i assume i: "i < length subtasks" and ok: "task_succeeds e s1 subtasks i"
    from task_outcome_succeeds [OF ok] obtain d where
      d: "task_outcome e s1 subtasks i = Inr (TaskDict d)" "subtask_index d = i"
         "subtask d = subtasks ! i" "res_agent_id d = agent_id (claimed_worker s1 subtasks i)"
      by blast
    from d(1) have "gathered e s1 subtasks i = TaskDict d" by (simp add: gathered_def)
    with listed [OF i task_succeeds_not_fails [OF ok]] have "TaskDict d \<in> set (results r)" by simp
    with d show "\<exists>d. TaskDict d \<in> set (results r) \<and> subtask_index d = i \<and> subtask d = subtasks ! i
                    \<and> res_agent_id d = agent_id (claimed_worker s1 subtasks i)"
      by blast
  next
    fix i assume i: "i < length subtasks"
      and n: "\<not> task_fails e s1 subtasks i \<and> \<not> task_succeeds e s1 subtasks i"
    from n task_outcome_aborted [of e s1 subtasks i] obtain exc where
      exc: "task_outcome e s1 subtasks i = Inl exc" "\<not> exc_is_exception exc"
      by blast
    from exc(1) have "gathered e s1 subtasks i = TaskException exc" by (simp add: gathered_def)
    with listed [OF i] n have "TaskException exc \<in> set (results r)" by simp
    with exc(2) show "\<exists>exc. TaskException exc \<in> set (results r) \<and> \<not> exc_is_exception exc"
      by blast
  qed
  with r show ?thesis by blast
qed

theorem task_failures_contained_witness:
  "task_fails one_fails_env (example_state [False, False, False]) [''a'', ''b'', ''c''] 1
   \<and> (\<exists>r. fst (execute_subtasks one_fails_env (example_state [False, False, False]) [''a'', ''b'', ''c'']) = Inr r
        \<and> \<lparr>error = ''Agent search_agent_1 failed after 5 attempts (took 4s)\<newline>Subtask [1]: b\<newline>Error type: TimeoutError\<newline>Error message: timed out\<newline>Full traceback:\<newline>TimeoutError''\<rparr>
             \<in> set (failed r)
        \<and> (\<exists>d. TaskDict d \<in> set (results r) \<and> subtask_index d = 0 \<and> subtask d = ''a'')
        \<and> (\<exists>d. TaskDict d \<in> set (results r) \<and> subtask_index d = 2 \<and> subtask d = ''c''))
   \<and> (\<exists>r. fst (execute_subtasks cancel_first_env (example_state [False, False]) [''a'', ''b'']) = Inr r
        \<and> failed r = []
        \<and> (\<exists>exc. TaskException exc \<in> set (results r) \<and> \<not> exc_is_exception exc)
        \<and> (\<exists>d. TaskDict d \<in> set (results r) \<and> subtask_index d = 1 \<and> subtask d = ''b''))"
proof -
  let ?s = "example_state [False, False, False]" and ?b = "[''a'', ''b'', ''c'']"
  obtain r where r: "fst (execute_subtasks one_fails_env ?s ?b) = Inr r"
    and each: "\<And>i. i < length ?b \<Longrightarrow>
            (task_fails one_fails_env ?s ?b i \<longrightarrow> task_failure one_fails_env ?s ?b i \<in> set (failed r))
          \<and> (task_succeeds one_fails_env ?s ?b i \<longrightarrow>
               (\<exists>d. TaskDict d \<in> set (results r) \<and> subtask_index d = i \<and> subtask d = ?b ! i
                    \<and> res_agent_id d = agent_id (claimed_worker ?s ?b i)))
          \<and> (\<not> task_fails one_fails_env ?s ?b i \<and> \<not> task_succeeds one_fails_env ?s ?b i \<longrightarrow>
               (\<exists>exc. TaskException exc \<in> set (results r) \<and> \<not> exc_is_exception exc))"
    using task_failures_contained [OF example_state_init example_admitted_3 one_fails_env_no_interrupt]
    by blast
  have f1: "task_fails one_fails_env ?s ?b 1"
    by (simp add: example_task_fails_3)
  have f0: "task_succeeds one_fails_env ?s ?b 0" and f2: "task_succeeds one_fails_env ?s ?b 2"
    by (simp_all add: example_task_succeeds_3)
  have a: "task_failure one_fails_env ?s ?b 1 \<in> set (failed r)"
    using each [of 1] f1 by simp
  have b: "\<exists>d. TaskDict d \<in> set (results r) \<and> subtask_index d = 0 \<and> subtask d = ''a''"
    using each [of 0] f0 by auto
  have c: "\<exists>d. TaskDict d \<in> set (results r) \<and> subtask_index d = 2 \<and> subtask d = ''c''"
    using each [of 2] f2 by auto
  from a have a': "\<lparr>error = ''Agent search_agent_1 failed after 5 attempts (took 4s)\<newline>Subtask [1]: b\<newline>Error type: TimeoutError\<newline>Error message: timed out\<newline>Full traceback:\<newline>TimeoutError''\<rparr>
             \<in> set (failed r)"
    unfolding example_task_failure_3 .
  from r a' b c have first: "\<exists>r. fst (execute_subtasks one_fails_env ?s ?b) = Inr r
        \<and> \<lparr>error = ''Agent search_agent_1 failed after 5 attempts (took 4s)\<newline>Subtask [1]: b\<newline>Error type: TimeoutError\<newline>Error message: timed out\<newline>Full traceback:\<newline>TimeoutError''\<rparr>
             \<in> set (failed r)
        \<and> (\<exists>d. TaskDict d \<in> set (results r) \<and> subtask_index d = 0 \<and> subtask d = ''a'')
        \<and> (\<exists>d. TaskDict d \<in> set (results r) \<and> subtask_index d = 2 \<and> subtask d = ''c'')"
    by (intro exI [of _ r] conjI)
  let ?t = "example_state [False, False]" and ?c = "[''a'', ''b'']"
  obtain q where q: "fst (execute_subtasks cancel_first_env ?t ?c) = Inr q"
    and eachq: "\<And>i. i < length ?c \<Longrightarrow>
            (task_fails cancel_first_env ?t ?c i \<longrightarrow> task_failure cancel_first_env ?t ?c i \<in> set (failed q))
          \<and> (task_succeeds cancel_first_env ?t ?c i \<longrightarrow>
               (\<exists>d. TaskDict d \<in> set (results q) \<and> subtask_index d = i \<and> subtask d = ?c ! i
                    \<and> res_agent_id d = agent_id (claimed_worker ?t ?c i)))
          \<and> (\<not> task_fails cancel_first_env ?t ?c i \<and> \<not> task_succeeds cancel_first_env ?t ?c i \<longrightarrow>
               (\<exists>exc. TaskException exc \<in> set (results q) \<and> \<not> exc_is_exception exc))"
    using task_failures_contained [OF example_state_init example_admitted_2 cancel_first_env_no_interrupt]
    by blast
  have nf1: "\<not> task_fails cancel_first_env ?t ?c 1"
    by (rule task_succeeds_not_fails [OF cancel_first_task_1])
  have u: "[0 ..< length ?c] = [0, 1]" by (simp add: upt_rec)
  have qf: "failed q = []"
    unfolding admitted_results(2) [OF example_state_init example_admitted_2 q] u
    using cancel_first_tasks(1) nf1 by simp
  have qe: "\<exists>exc. TaskException exc \<in> set (results q) \<and> \<not> exc_is_exception exc"
    using eachq [of 0] cancel_first_tasks(1,2) by simp
  have qd: "\<exists>d. TaskDict d \<in> set (results q) \<and> subtask_index d = 1 \<and> subtask d = ''b''"
    using eachq [of 1] cancel_first_task_1 by auto
  from q qf qe qd have second: "\<exists>r. fst (execute_subtasks cancel_first_env ?t ?c) = Inr r
        \<and> failed r = []
        \<and> (\<exists>exc. TaskException exc \<in> set (results r) \<and> \<not> exc_is_exception exc)
        \<and> (\<exists>d. TaskDict d \<in> set (results r) \<and> subtask_index d = 1 \<and> subtask d = ''b'')"
    by (intro exI [of _ q] conjI)
  from f1 first second show ?thesis by (intro conjI)
qed

text \<open>
  C7, as the code has it. In an admitted batch that is not interrupted, \<^verbatim>\<open>results\<close>
  lists, in the order of the indices, what the tasks that did not fail permanently handed
  back, and \<^verbatim>\<open>failed\<close> lists, in the order of the indices, the failure records of the
  tasks that did. The result dict of a task that succeeds carries the task's index. A
  failure record carries no index: it is the dict \<^verbatim>\<open>{"error": text}\<close>, where the text is
  the task's error message, written with the task's index and subtask. For three tasks
  of which those at 0 and 2 succeed and the one at 1 fails permanently, the successes
  carry the indices 0 and 2 and the only failure record is that of the task at 1.
\<close>

theorem index_fidelity:
  assumes "initialize_pool e s None = (None, s1, started)"
    and "admitted s1 subtasks"
    and "gather_interrupt e = None"
  shows "\<exists>r. fst (execute_subtasks e s subtasks) = Inr r
       \<and> results r = map (gathered e s1 subtasks)
                        (filter (\<lambda>i. \<not> task_fails e s1 subtasks i) [0 ..< length subtasks])
       \<and> failed r = map (task_failure e s1 subtasks) (filter (task_fails e s1 subtasks) [0 ..< length subtasks])
       \<and> (\<forall>i<length subtasks. task_succeeds e s1 subtasks i \<longrightarrow>
             index_of (gathered e s1 subtasks i) = Some i)
       \<and> (\<forall>i<length subtasks. task_fails e s1 subtasks i \<longrightarrow>
             (\<exists>el exc. failure_dict (task_failure e s1 subtasks i) =
                [(''error'', PStr (error_message e (claimed_worker s1 subtasks i) (subtasks ! i) i el exc))]))
       \<and> (length subtasks = 3 \<and> task_succeeds e s1 subtasks 0 \<and> task_fails e s1 subtasks 1
            \<and> task_succeeds e s1 subtasks 2 \<longrightarrow>
             map index_of (results r) = [Some 0, Some 2] \<and> failed r = [task_failure e s1 subtasks 1])"
proof -
  obtain r where r: "fst (execute_subtasks e s subtasks) = Inr r"
    using admitted_returns [OF assms] by blast
  note parts = admitted_results [OF assms(1,2) r]
  have succ: "\<forall>i<length subtasks. task_succeeds e s1 subtasks i \<longrightarrow>
             index_of (gathered e s1 subtasks i) = Some i"
    by (simp add: index_of_gathered)
  have fail: "\<forall>i<length subtasks. task_fails e s1 subtasks i \<longrightarrow>
             (\<exists>el exc. failure_dict (task_failure e s1 subtasks i) =
                [(''error'', PStr (error_message e (claimed_worker s1 subtasks i) (subtasks ! i) i el exc))])"
    using failure_dict_form by blast
  have three: "length subtasks = 3 \<and> task_succeeds e s1 subtasks 0 \<and> task_fails e s1 subtasks 1
            \<and> task_succeeds e s1 subtasks 2 \<longrightarrow>
             map index_of (results r) = [Some 0, Some 2] \<and> failed r = [task_failure e s1 subtasks 1]"
  proof (intro impI, elim conjE)
    assume l: "length subtasks = 3" and f: "task_succeeds e s1 subtasks 0" "task_fails e s1 subtasks 1"
      "task_succeeds e s1 subtasks 2"
    have u: "[0 ..< length subtasks] = [0, 1, 2]"
      unfolding l by (simp add: upt_rec)
    have n: "\<not> task_fails e s1 subtasks 0" "\<not> task_fails e s1 subtasks 2"
      using f task_succeeds_not_fails by blast+
    show "map index_of (results r) = [Some 0, Some 2] \<and> failed r = [task_failure e s1 subtasks 1]"
      unfolding parts u using f n by (simp add: index_of_gathered)
  qed
  show ?thesis
    by (rule exI [of _ r]) (intro conjI r parts succ fail three)
qed

theorem index_fidelity_witness:
  "\<exists>r. fst (execute_subtasks one_fails_env (example_state [False, False, False]) [''a'', ''b'', ''c'']) = Inr r
       \<and> map index_of (results r) = [Some 0, Some 2]
       \<and> failed r = [\<lparr>error = ''Agent search_agent_1 failed after 5 attempts (took 4s)\<newline>Subtask [1]: b\<newline>Error type: TimeoutError\<newline>Error message: timed out\<newline>Full traceback:\<newline>TimeoutError''\<rparr>]"
proof -
  let ?s = "example_state [False, False, False]" and ?b = "[''a'', ''b'', ''c'']"
  have sc: "length ?b = 3
      \<and> task_succeeds one_fails_env ?s ?b 0
      \<and> task_fails one_fails_env ?s ?b 1
      \<and> task_succeeds one_fails_env ?s ?b 2"
    by (simp add: example_task_fails_3 example_task_succeeds_3)
  obtain r where r: "fst (execute_subtasks one_fails_env ?s ?b) = Inr r"
    and imp: "length ?b = 3 \<and> task_succeeds one_fails_env ?s ?b 0 \<and> task_fails one_fails_env ?s ?b 1
            \<and> task_succeeds one_fails_env ?s ?b 2 \<longrightarrow>
             map index_of (results r) = [Some 0, Some 2] \<and> failed r = [task_failure one_fails_env ?s ?b 1]"
    using index_fidelity [OF example_state_init example_admitted_3 one_fails_env_no_interrupt]
    by (elim exE conjE) (rule that; assumption)
  from imp [rule_format, OF sc] have "map index_of (results r) = [Some 0, Some 2]"
    and "failed r = [task_failure one_fails_env ?s ?b 1]"
    by (rule conjunct1, rule conjunct2)
  with r show ?thesis
    unfolding example_task_failure_3 by (intro exI [of _ r] conjI)
qed

text \<open>
  C7, as it is worded, fails on the failure record: in the batch of three tasks, the only
  entry of \<^verbatim>\<open>failed\<close> is a dict whose only key is \<^verbatim>\<open>error\<close>. It has no index entry; the
  index appears in the error text alone.
\<close>

theorem index_fidelity_counterexample:
  "map index_of (results (projr (fst (execute_subtasks one_fails_env
       (example_state [False, False, False]) [''a'', ''b'', ''c''])))) = [Some 0, Some 2]
   \<and> map failure_dict (failed (projr (fst (execute_subtasks one_fails_env
       (example_state [False, False, False]) [''a'', ''b'', ''c''])))) =
       [[(''error'', PStr ''Agent search_agent_1 failed after 5 attempts (took 4s)\<newline>Subtask [1]: b\<newline>Error type: TimeoutError\<newline>Error message: timed out\<newline>Full traceback:\<newline>TimeoutError'')]]
   \<and> map_of [(''error'', PStr ''Agent search_agent_1 failed after 5 attempts (took 4s)\<newline>Subtask [1]: b\<newline>Error type: TimeoutError\<newline>Error message: timed out\<newline>Full traceback:\<newline>TimeoutError'')]
        ''subtask_index'' = None"
proof -
  let ?s = "example_state [False, False, False]" and ?b = "[''a'', ''b'', ''c'']"
  obtain r where r: "fst (execute_subtasks one_fails_env ?s ?b) = Inr r"
    using admitted_returns [OF example_state_init example_admitted_3 one_fails_env_no_interrupt]
    by blast
  note parts = admitted_results [OF example_state_init example_admitted_3 r]
  have u: "[0 ..< length ?b] = [0, 1, 2]" by (simp add: upt_rec)
  have f: "\<not> task_fails one_fails_env ?s ?b 0" "task_fails one_fails_env ?s ?b 1"
    "\<not> task_fails one_fails_env ?s ?b 2"
    by (simp_all add: example_task_fails_3)
  have g: "index_of (gathered one_fails_env ?s ?b 0) = Some 0"
    "index_of (gathered one_fails_env ?s ?b 2) = Some 2"
    by (simp_all add: index_of_gathered example_task_succeeds_3)
  have a: "map index_of (results r) = [Some 0, Some 2]"
    unfolding parts u using f g by simp
  have b: "map failure_dict (failed r) =
       [[(''error'', PStr ''Agent search_agent_1 failed after 5 attempts (took 4s)\<newline>Subtask [1]: b\<newline>Error type: TimeoutError\<newline>Error message: timed out\<newline>Full traceback:\<newline>TimeoutError'')]]"
  proof -
    have "failed r = [task_failure one_fails_env ?s ?b 1]"
      unfolding parts u using f by simp
    then show ?thesis
      unfolding example_task_failure_3 by (simp add: failure_dict_def)
  qed
  have c: "map_of [(''error'', PStr ''Agent search_agent_1 failed after 5 attempts (took 4s)\<newline>Subtask [1]: b\<newline>Error type: TimeoutError\<newline>Error message: timed out\<newline>Full traceback:\<newline>TimeoutError'')]
        ''subtask_index'' = None"
    by simp
  from a b c show ?thesis unfolding r by simp
qed

subsection \<open>The retry loop\<close>

text \<open>
  C4, as the code has it. A task makes \<open>m\<close> attempts, with \<open>1 \<le> m \<le> 5\<close>: what it does is
  \<open>m\<close> calls of its executor with exactly one \<^verbatim>\<open>sleep(1)\<close> between two consecutive calls
  and none after the last, so the wait is always 1 and never grows. Every attempt before
  the last failed, that is, raised an \<^verbatim>\<open>Exception\<close>, in the executor or in the extraction
  of the text from its response. If the last attempt failed as well, it was the fifth and
  the task raises its \<^verbatim>\<open>RuntimeError\<close>. Otherwise the last attempt either returned, and its
  dict is what the task returns, or raised an exception that is not an \<^verbatim>\<open>Exception\<close>,
  which the task raises as it is: after such an attempt there is no wait and no retry.
  In particular, when the executor raises an \<^verbatim>\<open>Exception\<close> on its first four calls and
  returns on the fifth a response from which the text is extracted, the task returns the
  result dict of that fifth attempt.
\<close>

theorem retry_policy:
  "max_retrys = 5
   \<and> (\<exists>m. 1 \<le> m \<and> m \<le> max_retrys
        \<and> snd (execute_on_agent e w st idx) =
            concat (replicate (m - 1) [AgentRun (agent w) st, Sleep 1]) @ [AgentRun (agent w) st]
        \<and> (\<forall>k<m - 1. attempt_fails e w st idx k)
        \<and> (if attempt_fails e w st idx (m - 1)
            then m = max_retrys
                 \<and> fst (execute_on_agent e w st idx) = Inl (RuntimeError (failure_text e w st idx))
            else fst (execute_on_agent e w st idx) =
                   (case snd (attempt_body e w st idx (m - 1)) of
                      Inl exc \<Rightarrow> Inl exc
                    | Inr d \<Rightarrow> Inr (TaskDict d))))
   \<and> ((\<forall>k<4. \<exists>exc. snd (agent_run e (agent w) st k) = Inl exc \<and> exc_is_exception exc)
        \<and> agent_run e (agent w) st 4 = (el, Inr resp)
        \<and> extract_output_from_dict e resp = Inr txt \<longrightarrow>
       execute_on_agent e w st idx =
         (Inr (TaskDict \<lparr>subtask_index = idx, subtask = st, result = txt,
                         res_agent_id = agent_id w, time_taken_seconds = el\<rparr>),
          concat (replicate 4 [AgentRun (agent w) st, Sleep 1]) @ [AgentRun (agent w) st]))"
proof (intro conjI)
  show "max_retrys = 5" by (simp add: max_retrys_def)
next
  show "\<exists>m. 1 \<le> m \<and> m \<le> max_retrys
        \<and> snd (execute_on_agent e w st idx) =
            concat (replicate (m - 1) [AgentRun (agent w) st, Sleep 1]) @ [AgentRun (agent w) st]
        \<and> (\<forall>k<m - 1. attempt_fails e w st idx k)
        \<and> (if attempt_fails e w st idx (m - 1)
            then m = max_retrys
                 \<and> fst (execute_on_agent e w st idx) = Inl (RuntimeError (failure_text e w st idx))
            else fst (execute_on_agent e w st idx) =
                   (case snd (attempt_body e w st idx (m - 1)) of
                      Inl exc \<Rightarrow> Inl exc
                    | Inr d \<Rightarrow> Inr (TaskDict d)))"
  proof (cases "fails_permanently e w st idx")
    case True
    then have all: "\<forall>k<max_retrys. attempt_fails e w st idx k"
      by (simp add: fails_permanently_iff)
    then have last: "attempt_fails e w st idx (max_retrys - 1)"
      by (simp add: max_retrys_def)
    have "1 \<le> max_retrys" by (simp add: max_retrys_def)
    with all last execute_on_agent_exhausted [OF True] show ?thesis
      by (intro exI [of _ max_retrys]) simp
  next
    case False
    then obtain k where k: "k < max_retrys" "\<forall>i<k. attempt_fails e w st idx i"
      "\<not> attempt_fails e w st idx k"
      by (rule deciding_attempt)
    from execute_on_agent_decided [OF k] k show ?thesis
      by (intro exI [of _ "Suc k"]) simp
  qed
next
  show "(\<forall>k<4. \<exists>exc. snd (agent_run e (agent w) st k) = Inl exc \<and> exc_is_exception exc)
        \<and> agent_run e (agent w) st 4 = (el, Inr resp)
        \<and> extract_output_from_dict e resp = Inr txt \<longrightarrow>
       execute_on_agent e w st idx =
         (Inr (TaskDict \<lparr>subtask_index = idx, subtask = st, result = txt,
                         res_agent_id = agent_id w, time_taken_seconds = el\<rparr>),
          concat (replicate 4 [AgentRun (agent w) st, Sleep 1]) @ [AgentRun (agent w) st])"
  proof (intro impI, elim conjE)
    assume f: "\<forall>k<4. \<exists>exc. snd (agent_run e (agent w) st k) = Inl exc \<and> exc_is_exception exc"
      and r: "agent_run e (agent w) st 4 = (el, Inr resp)"
      and x: "extract_output_from_dict e resp = Inr txt"
    have a: "(4::nat) < max_retrys" by (simp add: max_retrys_def)
    have b: "\<forall>i<4. attempt_fails e w st idx i"
      using f attempt_fails_raised by blast
    have c: "snd (attempt_body e w st idx 4) =
               Inr \<lparr>subtask_index = idx, subtask = st, result = txt,
                    res_agent_id = agent_id w, time_taken_seconds = el\<rparr>"
      using attempt_body_returns [OF r x] by simp
    show "execute_on_agent e w st idx =
         (Inr (TaskDict \<lparr>subtask_index = idx, subtask = st, result = txt,
                         res_agent_id = agent_id w, time_taken_seconds = el\<rparr>),
          concat (replicate 4 [AgentRun (agent w) st, Sleep 1]) @ [AgentRun (agent w) st])"
      using a b c by (rule execute_on_agent_first_success)
  qed
qed

theorem retry_policy_witness:
  "snd (agent_run flaky_env (agent (example_worker 0 True)) ''q'' 0) = Inl example_exc
   \<and> snd (agent_run flaky_env (agent (example_worker 0 True)) ''q'' 3) = Inl example_exc
   \<and> exc_is_exception example_exc
   \<and> agent_run flaky_env (agent (example_worker 0 True)) ''q'' 4
       = (4, Inr [(''messages'', PList [PObj ''AIMessage'' [(''content'', PStr ''found'')]])])
   \<and> execute_on_agent flaky_env (example_worker 0 True) ''q'' 0 =
       (Inr (TaskDict \<lparr>subtask_index = 0, subtask = ''q'', result = PStr ''found'',
                       res_agent_id = ''search_agent_0'', time_taken_seconds = 4\<rparr>),
        [AgentRun 0 ''q'', Sleep 1, AgentRun 0 ''q'', Sleep 1, AgentRun 0 ''q'', Sleep 1,
         AgentRun 0 ''q'', Sleep 1, AgentRun 0 ''q''])"
proof -
  have ex: "exc_is_exception example_exc" by (simp add: example_exc_def)
  have f: "\<forall>k<4. \<exists>exc. snd (agent_run flaky_env (agent (example_worker 0 True)) ''q'' k) = Inl exc
              \<and> exc_is_exception exc"
    using ex by (simp add: flaky_env_def)
  have r: "agent_run flaky_env (agent (example_worker 0 True)) ''q'' 4
       = (4, Inr [(''messages'', PList [PObj ''AIMessage'' [(''content'', PStr ''found'')]])])"
    by (simp add: flaky_env_def)
  have x: "extract_output_from_dict flaky_env [(''messages'', PList [PObj ''AIMessage'' [(''content'', PStr ''found'')]])]
             = Inr (PStr ''found'')"
    by (simp add: extract_output_from_dict_def)
  from retry_policy [of flaky_env "example_worker 0 True" "''q''" 0 4
         "[(''messages'', PList [PObj ''AIMessage'' [(''content'', PStr ''found'')]])]" "PStr ''found''"]
  have "execute_on_agent flaky_env (example_worker 0 True) ''q'' 0 =
         (Inr (TaskDict \<lparr>subtask_index = 0, subtask = ''q'', result = PStr ''found'',
                         res_agent_id = agent_id (example_worker 0 True), time_taken_seconds = 4\<rparr>),
          concat (replicate 4 [AgentRun (agent (example_worker 0 True)) ''q'', Sleep 1])
            @ [AgentRun (agent (example_worker 0 True)) ''q''])"
    using f r x by (elim conjE) (erule mp, intro conjI)
  moreover have "snd (agent_run flaky_env (agent (example_worker 0 True)) ''q'' 0) = Inl example_exc"
    and "snd (agent_run flaky_env (agent (example_worker 0 True)) ''q'' 3) = Inl example_exc"
    by (simp_all add: flaky_env_def)
  ultimately show ?thesis
    unfolding example_worker_0 four_rounds using r ex by (intro conjI) (simp_all only: example_worker_0)
qed

text \<open>
  C4, as it is worded, fails twice. An executor that raises on its first four calls and
  returns on the fifth a dict whose \<^verbatim>\<open>messages\<close> is a number makes the task fail: the
  extraction raises inside the fifth attempt. And an executor that is cancelled in its
  first call ends the task there: one call, no wait, no retry, although four attempts
  remain.
\<close>

theorem retry_policy_counterexample:
  "snd (agent_run bad_fifth_env 0 ''q'' 0) = Inl example_exc
   \<and> snd (agent_run bad_fifth_env 0 ''q'' 1) = Inl example_exc
   \<and> snd (agent_run bad_fifth_env 0 ''q'' 2) = Inl example_exc
   \<and> snd (agent_run bad_fifth_env 0 ''q'' 3) = Inl example_exc
   \<and> agent_run bad_fifth_env 0 ''q'' 4 = (4, Inr [(''messages'', PInt 5)])
   \<and> execute_on_agent bad_fifth_env (example_worker 0 True) ''q'' 0 =
       (Inl (RuntimeError (error_message bad_fifth_env (example_worker 0 True) ''q'' 0 4
               (not_subscriptable ''int''))),
        [AgentRun 0 ''q'', Sleep 1, AgentRun 0 ''q'', Sleep 1, AgentRun 0 ''q'', Sleep 1,
         AgentRun 0 ''q'', Sleep 1, AgentRun 0 ''q''])
   \<and> snd (agent_run cancel_first_env 0 ''q'' 0) = Inl CancelledError
   \<and> execute_on_agent cancel_first_env (example_worker 0 True) ''q'' 0 =
       (Inl CancelledError, [AgentRun 0 ''q''])"
proof -
  let ?w = "example_worker 0 True"
  have runs: "snd (agent_run bad_fifth_env 0 ''q'' 0) = Inl example_exc"
    "snd (agent_run bad_fifth_env 0 ''q'' 1) = Inl example_exc"
    "snd (agent_run bad_fifth_env 0 ''q'' 2) = Inl example_exc"
    "snd (agent_run bad_fifth_env 0 ''q'' 3) = Inl example_exc"
    "agent_run bad_fifth_env 0 ''q'' 4 = (4, Inr [(''messages'', PInt 5)])"
    by (simp_all add: bad_fifth_env_def)
  have early: "attempt_fails bad_fifth_env ?w ''q'' 0 k" if "k < 4" for k
    using that by (simp add: attempt_fails_def attempt_body_def bad_fifth_env_def example_exc_def)
  have fifth: "attempt_body bad_fifth_env ?w ''q'' 0 4 = (4, Inl (not_subscriptable ''int''))"
    by (simp add: attempt_body_def bad_fifth_env_def extract_output_from_dict_def example_worker_def)
  have late: "attempt_fails bad_fifth_env ?w ''q'' 0 4"
    by (simp add: attempt_fails_def fifth not_subscriptable_def TypeError_def)
  have "fails_permanently bad_fifth_env ?w ''q'' 0"
    unfolding fails_permanently_iff
  proof (intro allI impI)
    fix k assume "k < max_retrys"
    then have "k < 4 \<or> k = 4" by (auto simp: max_retrys_def)
    with early late show "attempt_fails bad_fifth_env ?w ''q'' 0 k" by blast
  qed
  note run = execute_on_agent_exhausted [OF this]
  have ft: "failure_text bad_fifth_env ?w ''q'' 0 =
              error_message bad_fifth_env ?w ''q'' 0 4 (not_subscriptable ''int'')"
    using fifth by (simp add: failure_text_def max_retrys_def)
  have tr: "concat (replicate (max_retrys - 1) [AgentRun (agent ?w) ''q'', Sleep 1]) @ [AgentRun (agent ?w) ''q'']
        = [AgentRun 0 ''q'', Sleep 1, AgentRun 0 ''q'', Sleep 1, AgentRun 0 ''q'', Sleep 1,
           AgentRun 0 ''q'', Sleep 1, AgentRun 0 ''q'']"
    by (simp add: max_retrys_def example_worker_0 numeral_eq_Suc)
  have bad: "execute_on_agent bad_fifth_env ?w ''q'' 0 =
       (Inl (RuntimeError (error_message bad_fifth_env ?w ''q'' 0 4 (not_subscriptable ''int''))),
        [AgentRun 0 ''q'', Sleep 1, AgentRun 0 ''q'', Sleep 1, AgentRun 0 ''q'', Sleep 1,
         AgentRun 0 ''q'', Sleep 1, AgentRun 0 ''q''])"
    using run unfolding ft tr .
  have c: "snd (agent_run cancel_first_env 0 ''q'' 0) = Inl CancelledError"
    by (simp add: cancel_first_env_def)
  from runs bad c cancel_first_run [of True "''q''" 0] show ?thesis by (intro conjI)
qed

subsection \<open>The result text\<close>

text \<open>
  C10, as the code has it. The text of a response is the rendering of its \<^verbatim>\<open>output\<close>
  when that key is present. Otherwise, when \<^verbatim>\<open>messages\<close> is a non-empty list whose last
  element has a content (the \<^verbatim>\<open>content\<close> attribute of an object, or the \<^verbatim>\<open>content\<close>
  key of a dict), it is that content, as it is. Otherwise (no \<^verbatim>\<open>messages\<close>, an empty
  list, or a last element without content) it is the rendering of the whole response.
  The \<^verbatim>\<open>result\<close> of every result dict a task returns is the text so extracted from the
  response of one of its attempts.
\<close>

theorem extract_output_cases:
  "(map_of r ''output'' = Some out \<longrightarrow> extract_output_from_dict e r = Inr (PStr (py_str e out)))
   \<and> (map_of r ''output'' = None \<and> map_of r ''messages'' = Some (PList ms) \<and> ms \<noteq> []
        \<and> content_of (last ms) = Some c \<longrightarrow>
       extract_output_from_dict e r = Inr c)
   \<and> (map_of r ''output'' = None \<and> map_of r ''messages'' = Some (PList ms) \<and> ms \<noteq> []
        \<and> content_of (last ms) = None \<longrightarrow>
       extract_output_from_dict e r = Inr (PStr (py_str e (PDict r))))
   \<and> (map_of r ''output'' = None
        \<and> (map_of r ''messages'' = None \<or> map_of r ''messages'' = Some (PList [])) \<longrightarrow>
       extract_output_from_dict e r = Inr (PStr (py_str e (PDict r))))
   \<and> (fst (execute_on_agent e w st idx) = Inr (TaskDict d) \<longrightarrow>
       (\<exists>k<max_retrys. \<exists>el resp. agent_run e (agent w) st k = (el, Inr resp)
           \<and> extract_output_from_dict e resp = Inr (result d)))"
proof (intro conjI impI)
  assume "map_of r ''output'' = Some out"
  then show "extract_output_from_dict e r = Inr (PStr (py_str e out))"
    by (simp add: extract_output_from_dict_def)
next
  assume "map_of r ''output'' = None \<and> map_of r ''messages'' = Some (PList ms) \<and> ms \<noteq> []
        \<and> content_of (last ms) = Some c"
  then show "extract_output_from_dict e r = Inr c"
    by (auto simp: extract_output_from_dict_def content_of_def split: option.splits)
next
  assume "map_of r ''output'' = None \<and> map_of r ''messages'' = Some (PList ms) \<and> ms \<noteq> []
        \<and> content_of (last ms) = None"
  then show "extract_output_from_dict e r = Inr (PStr (py_str e (PDict r)))"
    by (auto simp: extract_output_from_dict_def content_of_def split: option.splits)
next
  assume "map_of r ''output'' = None
        \<and> (map_of r ''messages'' = None \<or> map_of r ''messages'' = Some (PList []))"
  then show "extract_output_from_dict e r = Inr (PStr (py_str e (PDict r)))"
    by (auto simp: extract_output_from_dict_def)
next
  assume res: "fst (execute_on_agent e w st idx) = Inr (TaskDict d)"
  from execute_on_agent_dict [OF res] obtain k where
    k: "k < max_retrys" "snd (attempt_body e w st idx k) = Inr d"
    by auto
  from attempt_body_extracts [OF k(2)] k(1)
  show "\<exists>k<max_retrys. \<exists>el resp. agent_run e (agent w) st k = (el, Inr resp)
           \<and> extract_output_from_dict e resp = Inr (result d)"
    by blast
qed

theorem extract_output_cases_witness:
  "extract_output_from_dict example_env [(''output'', PStr ''answer''), (''messages'', PList [])]
     = Inr (PStr ''answer'')
   \<and> content_of (PObj ''AIMessage'' [(''content'', PStr ''found'')]) = Some (PStr ''found'')
   \<and> extract_output_from_dict example_env message_response = Inr (PStr ''found'')
   \<and> extract_output_from_dict example_env no_content_response
       = Inr (PStr (py_str example_env (PDict no_content_response)))
   \<and> extract_output_from_dict example_env [(''status'', PStr ''ok'')]
       = Inr (PStr (py_str example_env (PDict [(''status'', PStr ''ok'')])))"
proof -
  have a: "map_of [(''output'', PStr ''answer''), (''messages'', PList [])] ''output'' = Some (PStr ''answer'')"
    by simp
  have b: "map_of message_response ''output'' = None
        \<and> map_of message_response ''messages''
            = Some (PList [PDict [(''role'', PStr ''user'')], PObj ''AIMessage'' [(''content'', PStr ''found'')]])
        \<and> [PDict [(''role'', PStr ''user'')], PObj ''AIMessage'' [(''content'', PStr ''found'')]] \<noteq> []
        \<and> content_of (last [PDict [(''role'', PStr ''user'')], PObj ''AIMessage'' [(''content'', PStr ''found'')]])
            = Some (PStr ''found'')"
    by (simp add: message_response_def content_of_def)
  have c: "map_of no_content_response ''output'' = None
        \<and> map_of no_content_response ''messages'' = Some (PList [PDict [(''role'', PStr ''user'')]])
        \<and> [PDict [(''role'', PStr ''user'')]] \<noteq> []
        \<and> content_of (last [PDict [(''role'', PStr ''user'')]]) = None"
    by (simp add: no_content_response_def content_of_def)
  have d: "map_of [(''status'', PStr ''ok'')] ''output'' = None
        \<and> (map_of [(''status'', PStr ''ok'')] ''messages'' = None
            \<or> map_of [(''status'', PStr ''ok'')] ''messages'' = Some (PList []))"
    by simp
  have s: "py_str example_env (PStr ''answer'') = ''answer''"
    by (simp add: example_env_def)
  have f: "content_of (PObj ''AIMessage'' [(''content'', PStr ''found'')]) = Some (PStr ''found'')"
    by (simp add: content_of_def)
  have 1: "extract_output_from_dict example_env [(''output'', PStr ''answer''), (''messages'', PList [])]
     = Inr (PStr ''answer'')"
    using extract_output_cases [of "[(''output'', PStr ''answer''), (''messages'', PList [])]"
        "PStr ''answer''" example_env] a s by simp
  have 2: "extract_output_from_dict example_env message_response = Inr (PStr ''found'')"
    using extract_output_cases [of message_response _ example_env
        "[PDict [(''role'', PStr ''user'')], PObj ''AIMessage'' [(''content'', PStr ''found'')]]" "PStr ''found''"] b
    by blast
  have 3: "extract_output_from_dict example_env no_content_response
       = Inr (PStr (py_str example_env (PDict no_content_response)))"
    using extract_output_cases [of no_content_response _ example_env "[PDict [(''role'', PStr ''user'')]]"] c
    by blast
  have 4: "extract_output_from_dict example_env [(''status'', PStr ''ok'')]
       = Inr (PStr (py_str example_env (PDict [(''status'', PStr ''ok'')])))"
    using extract_output_cases [of "[(''status'', PStr ''ok'')]" _ example_env] d
    by blast
  from 1 f 2 3 4 show ?thesis by (intro conjI)
qed

text \<open>
  C10, as it is worded, fails on a response whose message list is not empty and whose
  last message has no content: the worded rule names a content that does not exist,
  and the code returns the rendering of the whole response.
\<close>

theorem extract_output_counterexample:
  "map_of no_content_response ''output'' = None
   \<and> map_of no_content_response ''messages'' = Some (PList [PDict [(''role'', PStr ''user'')]])
   \<and> content_of (last [PDict [(''role'', PStr ''user'')]]) = None
   \<and> claimed_extract example_env no_content_response = None
   \<and> extract_output_from_dict example_env no_content_response
       = Inr (PStr (py_str example_env (PDict no_content_response)))
   \<and> Some (extract_output_from_dict example_env no_content_response)
       \<noteq> map_option Inr (claimed_extract example_env no_content_response)"
  by (simp add: no_content_response_def content_of_def extract_output_from_dict_def claimed_extract_def)

subsection \<open>Usage counters\<close>

text \<open>
  C8 does not hold of the code. A batch of one subtask on a pool of one idle worker is
  admitted and its task calls the executor once, yet the worker's \<^verbatim>\<open>task_count\<close> (and
  every other field) is afterwards what it was: the retry loop calls \<^verbatim>\<open>agent.agent.run\<close>
  on the wrapped executor directly. \<^verbatim>\<open>WorkerAgentWrapper.execute\<close>, which counts the task
  and stamps \<^verbatim>\<open>last_used\<close>, is never called by the pool.
\<close>

theorem task_count_not_updated:
  "worker_pool (example_state [False]) = [example_worker 0 False]
   \<and> task_count (example_worker 0 False) = 0
   \<and> snd (snd (execute_subtasks example_env (example_state [False]) [''q''])) = [(0, ''q'', 0)]
   \<and> execute_on_agent example_env (example_worker 0 True) ''q'' 0 =
       (Inr (TaskDict \<lparr>subtask_index = 0, subtask = ''q'', result = PStr ''q'',
                       res_agent_id = ''search_agent_0'', time_taken_seconds = 0\<rparr>),
        [AgentRun 0 ''q''])
   \<and> worker_pool (fst (snd (execute_subtasks example_env (example_state [False]) [''q''])))
       = [example_worker 0 False]
   \<and> task_count (snd (execute example_env (example_worker 0 False) ''q'' 0 0)) = 1"
proof -
  have launched: "snd (snd (execute_subtasks example_env (example_state [False]) [''q''])) = [(0, ''q'', 0)]"
    unfolding execute_subtasks_by_index [OF example_state_init example_admitted_1]
    by (simp add: available_for_def example_idle_1)
  have st: "fst (snd (execute_subtasks example_env (example_state [False]) [''q''])) = example_state [False]"
    unfolding execute_subtasks_by_index [OF example_state_init example_admitted_1] by simp
  have body: "snd (attempt_body example_env (example_worker 0 True) ''q'' 0 0) =
      Inr \<lparr>subtask_index = 0, subtask = ''q'', result = PStr ''q'',
                       res_agent_id = ''search_agent_0'', time_taken_seconds = 0\<rparr>"
    by (simp add: attempt_body_def example_env_def extract_output_from_dict_def example_worker_def
          show_nat_digits)
  have "(0::nat) < max_retrys" by (simp add: max_retrys_def)
  from execute_on_agent_first_success [OF this _ body]
  have run: "execute_on_agent example_env (example_worker 0 True) ''q'' 0 =
       (Inr (TaskDict \<lparr>subtask_index = 0, subtask = ''q'', result = PStr ''q'',
                       res_agent_id = ''search_agent_0'', time_taken_seconds = 0\<rparr>),
        [AgentRun 0 ''q''])"
    by (simp add: example_worker_def)
  have cnt: "task_count (snd (execute example_env (example_worker 0 False) ''q'' 0 0)) = 1"
    by (simp add: execute_def Let_def example_worker_def)
  have zero: "task_count (example_worker 0 False) = 0" by (simp add: example_worker_def)
  show ?thesis
    using launched run cnt zero example_pool_1 unfolding st by (intro conjI)
qed

end
